theory Spec2Isabelle
  imports Complex_Main "HOL-Library.Word"
begin

section \<open>Apogee: a diagonal line across a canvas that fills the viewport\<close>

text \<open>
  The repository holds three scripts, each a complete page script of its own:
  \<^item> the \<^emph>\<open>basic\<close> script (lines 1-16): \<open>resizeDraw\<close> sizes the canvas to the document
    element's client size and strokes the diagonal, at startup and on every resize;
  \<^item> the \<^emph>\<open>animated\<close> script (lines 17-69): \<open>resize\<close> sizes the canvas by the device pixel
    ratio, and an animation-frame loop calls \<open>update\<close> and \<open>draw\<close> once per frame;
  \<^item> the \<^emph>\<open>static\<close> density-aware script (lines 70-104): \<open>resizeDraw\<close> calls \<open>resize\<close>
    and \<open>draw\<close>, at startup and on every resize.

  The scripts are modelled as state transformers over one record \<open>page\<close> that holds the
  script's variables together with the host objects they point to. Every statement that
  can throw is a step that returns either the fault with the state reached, or the new
  state. Numbers: the viewport sizes the host reports are whole numbers that are never
  negative, held in 31 bits; the size of the canvas's backing store is a whole number;
  the device pixel ratio, time stamps and canvas coordinates are \<open>real\<close>, an idealisation
  of the host's double-precision numbers.
\<close>

subsection \<open>Faults\<close>

datatype error = TypeError | ReferenceError

subsection \<open>The host: viewport, canvas element, 2D context\<close>

text \<open>
  The values the window and the document element expose during one task. The four sizes
  are attributes of the host's type \<open>long\<close> that are never negative: the values from 0 to
  \<open>2^31 - 1\<close>, read by a script as the number \<open>uint w\<close>.
\<close>

record host_env =
  innerWidth :: "31 word"
  innerHeight :: "31 word"
  clientWidth :: "31 word"
  clientHeight :: "31 word"
  devicePixelRatio :: real

text \<open>
  The canvas element: its \<open>width\<close> and \<open>height\<close> attributes (the size of the backing
  store, whole numbers) and the two style properties the scripts assign.
\<close>

record canvas =
  width :: int
  height :: int
  style_width :: string
  style_height :: string

text \<open>
  \<open>width\<close> and \<open>height\<close> are attributes of the host's type \<open>unsigned long\<close>. A number
  assigned to one is converted first: truncated towards zero, then reduced modulo
  \<open>2^32\<close>. The attribute takes the result when it is at most \<open>2^31 - 1\<close>, and its default
  (300 for \<open>width\<close>, 150 for \<open>height\<close>) otherwise.
\<close>

definition to_unsigned_long :: "real \<Rightarrow> int" where
  "to_unsigned_long x = (if x < 0 then - \<lfloor>- x\<rfloor> else \<lfloor>x\<rfloor>) mod 2 ^ 32"

definition canvas_dimension :: "int \<Rightarrow> real \<Rightarrow> int" where
  "canvas_dimension d x = (let n = to_unsigned_long x in if n \<le> 2147483647 then n else d)"

text \<open>The current transformation matrix of a 2D context, \<open>[a c e; b d f; 0 0 1]\<close>.\<close>

record matrix =
  ma :: real
  mb :: real
  mc :: real
  md :: real
  me :: real
  mf :: real

definition identity :: matrix where
  "identity = \<lparr>ma = 1, mb = 0, mc = 0, md = 1, me = 0, mf = 0\<rparr>"

definition scale_matrix :: "matrix \<Rightarrow> real \<Rightarrow> real \<Rightarrow> matrix" where
  "scale_matrix m x y = m\<lparr>ma := ma m * x, mb := mb m * x, mc := mc m * y, md := md m * y\<rparr>"

definition uniform_scale :: "real \<Rightarrow> matrix" where
  "uniform_scale r = \<lparr>ma = r, mb = 0, mc = 0, md = r, me = 0, mf = 0\<rparr>"

fun apply_matrix :: "matrix \<Rightarrow> real \<times> real \<Rightarrow> real \<times> real" where
  "apply_matrix m (x, y) = (ma m * x + mc m * y + me m, mb m * x + md m * y + mf m)"

text \<open>
  What is on the canvas, as the list of painting operations since the last reset, each in
  device coordinates: a stroked path (its subpaths), or a cleared quadrilateral.
\<close>

datatype paint =
  Stroked "(real \<times> real) list list"
| Cleared "(real \<times> real) list"

record context2d =
  transform :: matrix
  path :: "(real \<times> real) list list"
  surface :: "paint list"

text \<open>
  Assigning the canvas's \<open>width\<close> or \<open>height\<close> resets its rendering context to the default
  state: identity transform, empty path, blank bitmap.
\<close>

definition reset_context :: "context2d \<Rightarrow> context2d" where
  "reset_context c = c\<lparr>transform := identity, path := [], surface := []\<rparr>"

subsection \<open>The page: script variables, registrations, and the record of calls\<close>

text \<open>The functions a script registers with the host.\<close>

datatype listener = ResizeDrawBasic | Resize | ResizeDrawStatic

datatype callback = Priming | Loop

text \<open>
  The calls a script makes, in order, with their arguments as written (logical
  coordinates). \<open>Update\<close> records a call of the script's own \<open>update\<close> with its \<open>dt\<close>.
\<close>

datatype call =
  SetCanvasWidth real
| SetCanvasHeight real
| SetStyleWidth string
| SetStyleHeight string
| Scale real real
| ClearRect real real real real
| BeginPath
| MoveTo real real
| LineTo real real
| Stroke
| AddEventListener listener
| RequestAnimationFrame callback
| Update real

record page =
  canvas :: "canvas option"
  ctx :: "context2d option"
  pixelRatio :: real
  state_canvas_width :: int
  state_canvas_height :: int
  prevTime :: real
  loop_initialized :: bool
  listeners :: "listener list"
  frame_requests :: "callback list"
  trace :: "call list"
  uncaught :: "error list"

text \<open>
  \<open>canvas\<close> and \<open>ctx\<close> are the two constants of that name: \<open>None\<close> is \<open>null\<close>.
  \<open>loop_initialized\<close> says whether the declaration \<open>const loop = ...\<close> has been evaluated.
  \<open>uncaught\<close> lists the faults that left a task without being caught.
\<close>

type_synonym result = "(error \<times> page) + page"

type_synonym step = "page \<Rightarrow> result"

fun run :: "step list \<Rightarrow> step" where
  "run [] p = Inr p"
| "run (s # ss) p = (case s p of Inl e \<Rightarrow> Inl e | Inr p' \<Rightarrow> run ss p')"

definition record_call :: "call \<Rightarrow> page \<Rightarrow> page" where
  "record_call c p = p\<lparr>trace := trace p @ [c]\<rparr>"

subsection \<open>Host operations, as steps\<close>

definition set_canvas_width :: "real \<Rightarrow> step" where
  "set_canvas_width v p =
     (case canvas p of
        None \<Rightarrow> Inl (TypeError, p)
      | Some c \<Rightarrow>
          Inr (record_call (SetCanvasWidth v)
                 (p\<lparr>canvas := Some (c\<lparr>width := canvas_dimension 300 v\<rparr>),
                    ctx := map_option reset_context (ctx p)\<rparr>)))"

definition set_canvas_height :: "real \<Rightarrow> step" where
  "set_canvas_height v p =
     (case canvas p of
        None \<Rightarrow> Inl (TypeError, p)
      | Some c \<Rightarrow>
          Inr (record_call (SetCanvasHeight v)
                 (p\<lparr>canvas := Some (c\<lparr>height := canvas_dimension 150 v\<rparr>),
                    ctx := map_option reset_context (ctx p)\<rparr>)))"

definition set_style_width :: "string \<Rightarrow> step" where
  "set_style_width s p =
     (case canvas p of
        None \<Rightarrow> Inl (TypeError, p)
      | Some c \<Rightarrow> Inr (record_call (SetStyleWidth s) (p\<lparr>canvas := Some (c\<lparr>style_width := s\<rparr>)\<rparr>)))"

definition set_style_height :: "string \<Rightarrow> step" where
  "set_style_height s p =
     (case canvas p of
        None \<Rightarrow> Inl (TypeError, p)
      | Some c \<Rightarrow> Inr (record_call (SetStyleHeight s) (p\<lparr>canvas := Some (c\<lparr>style_height := s\<rparr>)\<rparr>)))"

definition ctx_scale :: "real \<Rightarrow> real \<Rightarrow> step" where
  "ctx_scale x y p =
     (case ctx p of
        None \<Rightarrow> Inl (TypeError, p)
      | Some c \<Rightarrow>
          Inr (record_call (Scale x y)
                 (p\<lparr>ctx := Some (c\<lparr>transform := scale_matrix (transform c) x y\<rparr>)\<rparr>)))"

definition ctx_clearRect :: "real \<Rightarrow> real \<Rightarrow> real \<Rightarrow> real \<Rightarrow> step" where
  "ctx_clearRect x y w h p =
     (case ctx p of
        None \<Rightarrow> Inl (TypeError, p)
      | Some c \<Rightarrow>
          Inr (record_call (ClearRect x y w h)
                 (p\<lparr>ctx := Some (c\<lparr>surface := surface c @
                    [Cleared (map (apply_matrix (transform c))
                       [(x, y), (x + w, y), (x + w, y + h), (x, y + h)])]\<rparr>)\<rparr>)))"

definition ctx_beginPath :: step where
  "ctx_beginPath p =
     (case ctx p of
        None \<Rightarrow> Inl (TypeError, p)
      | Some c \<Rightarrow> Inr (record_call BeginPath (p\<lparr>ctx := Some (c\<lparr>path := []\<rparr>)\<rparr>)))"

definition ctx_moveTo :: "real \<Rightarrow> real \<Rightarrow> step" where
  "ctx_moveTo x y p =
     (case ctx p of
        None \<Rightarrow> Inl (TypeError, p)
      | Some c \<Rightarrow>
          Inr (record_call (MoveTo x y)
                 (p\<lparr>ctx := Some (c\<lparr>path := path c @ [[apply_matrix (transform c) (x, y)]]\<rparr>)\<rparr>)))"

definition ctx_lineTo :: "real \<Rightarrow> real \<Rightarrow> step" where
  "ctx_lineTo x y p =
     (case ctx p of
        None \<Rightarrow> Inl (TypeError, p)
      | Some c \<Rightarrow>
          Inr (record_call (LineTo x y)
                 (p\<lparr>ctx := Some (c\<lparr>path :=
                    (if path c = [] then [[apply_matrix (transform c) (x, y)]]
                     else butlast (path c) @ [last (path c) @ [apply_matrix (transform c) (x, y)]])\<rparr>)\<rparr>)))"

definition ctx_stroke :: step where
  "ctx_stroke p =
     (case ctx p of
        None \<Rightarrow> Inl (TypeError, p)
      | Some c \<Rightarrow> Inr (record_call Stroke (p\<lparr>ctx := Some (c\<lparr>surface := surface c @ [Stroked (path c)]\<rparr>)\<rparr>)))"

definition addEventListener :: "listener \<Rightarrow> step" where
  "addEventListener l p = Inr (record_call (AddEventListener l) (p\<lparr>listeners := listeners p @ [l]\<rparr>))"

definition requestAnimationFrame :: "callback \<Rightarrow> step" where
  "requestAnimationFrame cb p =
     Inr (record_call (RequestAnimationFrame cb) (p\<lparr>frame_requests := frame_requests p @ [cb]\<rparr>))"

text \<open>The template literal \<open>`${n}px`\<close> for a whole number \<open>n\<close>: its decimal digits, then \<open>px\<close>.\<close>

definition digit :: "nat \<Rightarrow> char" where
  "digit n = ''0123456789'' ! n"

fun digits :: "nat \<Rightarrow> string" where
  "digits n = (if n < 10 then [digit n] else digits (n div 10) @ [digit (n mod 10)])"

declare digits.simps [simp del]

definition number_to_string :: "int \<Rightarrow> string" where
  "number_to_string i = (if i < 0 then CHR ''-'' # digits (nat (- i)) else digits (nat i))"

definition px :: "int \<Rightarrow> string" where
  "px i = number_to_string i @ ''px''"

subsection \<open>The document a script starts in\<close>

text \<open>
  \<open>doc_canvas\<close> is what \<open>document.querySelector('canvas')\<close> returns, \<open>doc_context\<close> what
  \<open>getContext('2d')\<close> returns on that element; \<open>None\<close> is \<open>null\<close>.
\<close>

record document =
  doc_canvas :: "canvas option"
  doc_context :: "context2d option"

definition querySelector_canvas :: "document \<Rightarrow> step" where
  "querySelector_canvas doc p = Inr (p\<lparr>canvas := doc_canvas doc\<rparr>)"

definition getContext_2d :: "document \<Rightarrow> step" where
  "getContext_2d doc p =
     (case canvas p of
        None \<Rightarrow> Inl (TypeError, p)
      | Some c \<Rightarrow> Inr (p\<lparr>ctx := doc_context doc\<rparr>))"

definition blank_page :: page where
  "blank_page =
     \<lparr>canvas = None, ctx = None, pixelRatio = 0, state_canvas_width = 0, state_canvas_height = 0,
      prevTime = 0, loop_initialized = False, listeners = [], frame_requests = [], trace = [],
      uncaught = []\<rparr>"

subsection \<open>The basic script (lines 1-16)\<close>

text \<open>
  The body of a function is the list of its statements, in order; calling the function
  runs them.
\<close>

definition resizeDraw_basic_body :: "host_env \<Rightarrow> step list" where
  "resizeDraw_basic_body env =
         [set_canvas_width (of_int (uint (clientWidth env))),
          set_canvas_height (of_int (uint (clientHeight env))),
          ctx_beginPath,
          ctx_moveTo 0 0,
          (\<lambda>p. case canvas p of
                  None \<Rightarrow> Inl (TypeError, p)
                | Some c \<Rightarrow> ctx_lineTo (of_int (width c)) (of_int (height c)) p),
          ctx_stroke]"

definition resizeDraw_basic :: "host_env \<Rightarrow> step" where
  "resizeDraw_basic env = run (resizeDraw_basic_body env)"

definition script_basic :: "document \<Rightarrow> host_env \<Rightarrow> step" where
  "script_basic doc env =
     run [querySelector_canvas doc,
          getContext_2d doc,
          addEventListener ResizeDrawBasic,
          resizeDraw_basic env]"

subsection \<open>The animated script (lines 17-69)\<close>

definition update :: "real \<Rightarrow> step" where
  "update dt p = Inr p"

definition draw_animated_body :: "step list" where
  "draw_animated_body =
         [(\<lambda>p. ctx_clearRect 0 0 (of_int (state_canvas_width p)) (of_int (state_canvas_height p)) p),
          ctx_beginPath,
          ctx_moveTo 0 0,
          (\<lambda>p. ctx_lineTo (of_int (state_canvas_width p)) (of_int (state_canvas_height p)) p),
          ctx_stroke]"

definition draw_animated :: step where
  "draw_animated = run draw_animated_body"

text \<open>\<open>resize\<close>: lines 42-50; the static script's \<open>resize\<close> (lines 81-89) is the same text.\<close>

definition resize_body :: "host_env \<Rightarrow> step list" where
  "resize_body env =
         [(\<lambda>p. set_canvas_width (of_int (uint (innerWidth env)) * pixelRatio p) p),
          (\<lambda>p. set_canvas_height (of_int (uint (innerHeight env)) * pixelRatio p) p),
          set_style_width (px (uint (innerWidth env))),
          set_style_height (px (uint (innerHeight env))),
          (\<lambda>p. ctx_scale (pixelRatio p) (pixelRatio p) p),
          (\<lambda>p. Inr (p\<lparr>state_canvas_width := uint (innerWidth env)\<rparr>)),
          (\<lambda>p. Inr (p\<lparr>state_canvas_height := uint (innerHeight env)\<rparr>))]"

definition resize :: "host_env \<Rightarrow> step" where
  "resize env = run (resize_body env)"

text \<open>
  Evaluating the name \<open>loop\<close> throws a ReferenceError while its \<open>const\<close> declaration has
  not been evaluated.
\<close>

definition requestAnimationFrame_loop :: step where
  "requestAnimationFrame_loop p =
     (if loop_initialized p then requestAnimationFrame Loop p else Inl (ReferenceError, p))"

text \<open>The anonymous callback of lines 57-60.\<close>

definition priming_body :: "real \<Rightarrow> step list" where
  "priming_body time =
         [(\<lambda>p. Inr (p\<lparr>prevTime := time\<rparr>)),
          requestAnimationFrame_loop]"

definition priming :: "real \<Rightarrow> step" where
  "priming time = run (priming_body time)"

definition loop :: "real \<Rightarrow> step" where
  "loop time p =
     (let dt = time - prevTime p in
      run [(\<lambda>p. Inr (p\<lparr>prevTime := time\<rparr>)),
           (\<lambda>p. update dt (record_call (Update dt) p)),
           draw_animated,
           requestAnimationFrame_loop] p)"

definition script_animated :: "document \<Rightarrow> host_env \<Rightarrow> step" where
  "script_animated doc env =
     run [querySelector_canvas doc,
          getContext_2d doc,
          (\<lambda>p. Inr (p\<lparr>pixelRatio := devicePixelRatio env\<rparr>)),
          (\<lambda>p. Inr (p\<lparr>state_canvas_width := 0, state_canvas_height := 0\<rparr>)),
          addEventListener Resize,
          resize env,
          (\<lambda>p. Inr (p\<lparr>prevTime := 0\<rparr>)),
          requestAnimationFrame Priming,
          (\<lambda>p. Inr (p\<lparr>loop_initialized := True\<rparr>))]"

subsection \<open>The static density-aware script (lines 70-104)\<close>

definition draw_static_body :: "step list" where
  "draw_static_body =
         [ctx_beginPath,
          ctx_moveTo 0 0,
          (\<lambda>p. ctx_lineTo (of_int (state_canvas_width p)) (of_int (state_canvas_height p)) p),
          ctx_stroke]"

definition draw_static :: step where
  "draw_static = run draw_static_body"

definition resizeDraw_static :: "host_env \<Rightarrow> step" where
  "resizeDraw_static env = run [resize env, draw_static]"

definition script_static :: "document \<Rightarrow> host_env \<Rightarrow> step" where
  "script_static doc env =
     run [querySelector_canvas doc,
          getContext_2d doc,
          (\<lambda>p. Inr (p\<lparr>pixelRatio := devicePixelRatio env\<rparr>)),
          (\<lambda>p. Inr (p\<lparr>state_canvas_width := 0, state_canvas_height := 0\<rparr>)),
          addEventListener ResizeDrawStatic,
          resizeDraw_static env]"

subsection \<open>Tasks and events\<close>

text \<open>
  The host runs the script, every listener and every animation-frame callback as a task
  of its own, to completion. No script has a \<open>try\<close>: a fault ends the task, the state
  reached stays, and the fault is recorded as uncaught.
\<close>

definition task :: "step \<Rightarrow> page \<Rightarrow> page" where
  "task f p = (case f p of Inr p' \<Rightarrow> p' | Inl (e, p') \<Rightarrow> p'\<lparr>uncaught := uncaught p' @ [e]\<rparr>)"

fun listener_fn :: "listener \<Rightarrow> host_env \<Rightarrow> step" where
  "listener_fn ResizeDrawBasic env = resizeDraw_basic env"
| "listener_fn Resize env = resize env"
| "listener_fn ResizeDrawStatic env = resizeDraw_static env"

fun callback_fn :: "callback \<Rightarrow> real \<Rightarrow> step" where
  "callback_fn Priming time = priming time"
| "callback_fn Loop time = loop time"

datatype event = ResizeEvent host_env | FrameEvent real

text \<open>
  A resize notification calls every registered listener. An animation frame calls the
  callbacks requested since the previous frame, each with the frame's time stamp; what
  they request is for the next frame.
\<close>

fun deliver :: "event \<Rightarrow> page \<Rightarrow> page" where
  "deliver (ResizeEvent env) p = fold (\<lambda>l. task (listener_fn l env)) (listeners p) p"
| "deliver (FrameEvent time) p =
     fold (\<lambda>cb. task (callback_fn cb time)) (frame_requests p) (p\<lparr>frame_requests := []\<rparr>)"

datatype variant = Basic | Animated | Static

fun script :: "variant \<Rightarrow> document \<Rightarrow> host_env \<Rightarrow> step" where
  "script Basic = script_basic"
| "script Animated = script_animated"
| "script Static = script_static"

definition startup :: "variant \<Rightarrow> document \<Rightarrow> host_env \<Rightarrow> page" where
  "startup v doc env = task (script v doc env) blank_page"

definition execution :: "variant \<Rightarrow> document \<Rightarrow> host_env \<Rightarrow> event list \<Rightarrow> page" where
  "execution v doc env evs = fold deliver evs (startup v doc env)"

section \<open>Vocabulary of the properties\<close>

text \<open>
  The path the Line Drawer builds under transform \<open>m\<close>: one subpath, from the image of the
  logical origin to the image of the logical point \<open>(x, y)\<close>.
\<close>

definition line_path :: "matrix \<Rightarrow> real \<Rightarrow> real \<Rightarrow> (real \<times> real) list list" where
  "line_path m x y = [[apply_matrix m (0, 0), apply_matrix m (x, y)]]"

text \<open>The listener each script registers for the resize notification.\<close>

fun listener_of :: "variant \<Rightarrow> listener" where
  "listener_of Basic = ResizeDrawBasic"
| "listener_of Animated = Resize"
| "listener_of Static = ResizeDrawStatic"

text \<open>
  A page whose script has started with a canvas and a 2D context: nothing has faulted, the
  script's listener is registered, and the animated script has one animation-frame
  request pending. \<open>r\<close> is the density ratio the script read at startup.
\<close>

definition ready :: "variant \<Rightarrow> real \<Rightarrow> page \<Rightarrow> bool" where
  "ready v r p =
     (canvas p \<noteq> None \<and> ctx p \<noteq> None \<and> uncaught p = [] \<and>
      listeners p = [listener_of v] \<and>
      (case v of
         Basic \<Rightarrow> frame_requests p = []
       | Animated \<Rightarrow> pixelRatio p = r \<and> loop_initialized p \<and>
           (frame_requests p = [Priming] \<or> frame_requests p = [Loop])
       | Static \<Rightarrow> pixelRatio p = r \<and> frame_requests p = []))"



text \<open>A document with one canvas of the default size, and the viewport of a window.\<close>

definition default_canvas :: canvas where
  "default_canvas = \<lparr>width = 300, height = 150, style_width = [], style_height = []\<rparr>"

definition default_context :: context2d where
  "default_context = \<lparr>transform = identity, path = [], surface = []\<rparr>"

definition canvas_document :: document where
  "canvas_document = \<lparr>doc_canvas = Some default_canvas, doc_context = Some default_context\<rparr>"

definition viewport :: "31 word \<Rightarrow> 31 word \<Rightarrow> real \<Rightarrow> host_env" where
  "viewport w h r = \<lparr>innerWidth = w, innerHeight = h, clientWidth = w, clientHeight = h, devicePixelRatio = r\<rparr>"

text \<open>The viewport the most recent Sizer run read: at startup, or at the latest resize.\<close>

fun latest :: "host_env \<Rightarrow> event list \<Rightarrow> host_env" where
  "latest env [] = env"
| "latest env (ResizeEvent e # evs) = latest e evs"
| "latest env (FrameEvent t # evs) = latest env evs"


text \<open>The line most recently stroked, in logical coordinates, read off the record of calls.\<close>

definition logical_line :: "call list \<Rightarrow> ((real \<times> real) \<times> (real \<times> real)) option" where
  "logical_line calls =
     (case rev calls of
        Stroke # LineTo x y # MoveTo a b # BeginPath # _ \<Rightarrow> Some ((a, b), (x, y))
      | _ \<Rightarrow> None)"

text \<open>The painting operation most recently applied to the canvas.\<close>

definition last_paint :: "page \<Rightarrow> paint option" where
  "last_paint p =
     (case ctx p of
        None \<Rightarrow> None
      | Some x \<Rightarrow> (if surface x = [] then None else Some (last (surface x))))"

text \<open>
  A step keeps \<open>P\<close> when, started where \<open>P\<close> holds, it ends where \<open>P\<close> holds, whether
  it returns or faults, and faults only with errors in \<open>E\<close>.
\<close>

definition keeps :: "(page \<Rightarrow> bool) \<Rightarrow> (error \<Rightarrow> bool) \<Rightarrow> step \<Rightarrow> bool" where
  "keeps P E s = (\<forall>p. P p \<longrightarrow> (case s p of Inl (e, p') \<Rightarrow> E e \<and> P p' | Inr p' \<Rightarrow> P p'))"

definition any_error :: "error \<Rightarrow> bool" where
  "any_error e = True"

definition no_reference_error :: "error \<Rightarrow> bool" where
  "no_reference_error e = (e \<noteq> ReferenceError)"

text \<open>
  For the binding of \<open>loop\<close>: either the declaration has been evaluated, or no
  animation-frame callback is pending; and no ReferenceError has been thrown so far.
\<close>

definition loop_declared :: "page \<Rightarrow> bool" where
  "loop_declared p = (loop_initialized p \<and> ReferenceError \<notin> set (uncaught p))"

definition no_requests :: "page \<Rightarrow> bool" where
  "no_requests p = (frame_requests p = [] \<and> ReferenceError \<notin> set (uncaught p))"

definition never_reference_error :: "page \<Rightarrow> bool" where
  "never_reference_error p = (loop_declared p \<or> no_requests p)"

text \<open>
  A page without a context on which nothing has been stroked and no frame is requested.
\<close>

definition never_draws :: "page \<Rightarrow> bool" where
  "never_draws p = (ctx p = None \<and> Stroke \<notin> set (trace p) \<and> frame_requests p = [])"

text \<open>
  Two events that differ at most in the density ratio the window reports at that time.
\<close>

fun same_viewport :: "event \<Rightarrow> event \<Rightarrow> bool" where
  "same_viewport (ResizeEvent a) (ResizeEvent b) =
     (innerWidth a = innerWidth b \<and> innerHeight a = innerHeight b \<and>
      clientWidth a = clientWidth b \<and> clientHeight a = clientHeight b)"
| "same_viewport (FrameEvent s) (FrameEvent t) = (s = t)"
| "same_viewport _ _ = False"

text \<open>
  For the Frame Driver: the time stamps of the animation frames among the events, the
  \<open>dt\<close> arguments of the calls of \<open>update\<close> in a record of calls, and the differences of
  consecutive time stamps.
\<close>

fun frame_times :: "event list \<Rightarrow> real list" where
  "frame_times [] = []"
| "frame_times (FrameEvent t # evs) = t # frame_times evs"
| "frame_times (ResizeEvent e # evs) = frame_times evs"

fun updates :: "call list \<Rightarrow> real list" where
  "updates [] = []"
| "updates (Update dt # cs) = dt # updates cs"
| "updates (c # cs) = updates cs"

fun dts :: "real list \<Rightarrow> real list" where
  "dts (a # b # ts) = (b - a) # dts (b # ts)"
| "dts ts = []"

text \<open>
  The Frame Driver after frames at times \<open>ts\<close>: priming while there has been none, running
  afterwards with the last time stamp as \<open>prevTime\<close>.
\<close>

definition frame_state :: "real list \<Rightarrow> page \<Rightarrow> bool" where
  "frame_state ts p =
     ((if ts = [] then frame_requests p = [Priming]
       else frame_requests p = [Loop] \<and> prevTime p = last ts) \<and>
      updates (trace p) = dts ts)"

text \<open>A ViewportState whose width and height are not negative.\<close>

definition nonneg_state :: "page \<Rightarrow> bool" where
  "nonneg_state p = (0 \<le> state_canvas_width p \<and> 0 \<le> state_canvas_height p)"

text \<open>The arguments of the \<open>lineTo\<close> calls of a record of calls: one per run of the Drawer.\<close>

fun line_ends :: "call list \<Rightarrow> (real \<times> real) list" where
  "line_ends [] = []"
| "line_ends (LineTo x y # cs) = (x, y) # line_ends cs"
| "line_ends (c # cs) = line_ends cs"

text \<open>
  The viewport size a script reads (the basic one from the document element), and the
  calls one run of its Sizer and one run of its Drawer make at viewport \<open>e\<close> and ratio
  \<open>r\<close>. \<open>resize_pass\<close> is what one resize notification makes a script call: Sizer and
  Drawer in the basic and the static script, the Sizer alone in the animated one.
\<close>

fun size_of :: "variant \<Rightarrow> host_env \<Rightarrow> real \<times> real" where
  "size_of Basic e = (of_int (uint (clientWidth e)), of_int (uint (clientHeight e)))"
| "size_of Animated e = (of_int (uint (innerWidth e)), of_int (uint (innerHeight e)))"
| "size_of Static e = (of_int (uint (innerWidth e)), of_int (uint (innerHeight e)))"

fun sizer_calls :: "variant \<Rightarrow> real \<Rightarrow> host_env \<Rightarrow> call list" where
  "sizer_calls Basic r e =
     [SetCanvasWidth (of_int (uint (clientWidth e))), SetCanvasHeight (of_int (uint (clientHeight e)))]"
| "sizer_calls Animated r e =
     [SetCanvasWidth (of_int (uint (innerWidth e)) * r), SetCanvasHeight (of_int (uint (innerHeight e)) * r),
      SetStyleWidth (px (uint (innerWidth e))), SetStyleHeight (px (uint (innerHeight e))), Scale r r]"
| "sizer_calls Static r e =
     [SetCanvasWidth (of_int (uint (innerWidth e)) * r), SetCanvasHeight (of_int (uint (innerHeight e)) * r),
      SetStyleWidth (px (uint (innerWidth e))), SetStyleHeight (px (uint (innerHeight e))), Scale r r]"

fun drawer_calls :: "variant \<Rightarrow> host_env \<Rightarrow> call list" where
  "drawer_calls Basic e =
     [BeginPath, MoveTo 0 0, LineTo (of_int (uint (clientWidth e))) (of_int (uint (clientHeight e))), Stroke]"
| "drawer_calls Animated e =
     [ClearRect 0 0 (of_int (uint (innerWidth e))) (of_int (uint (innerHeight e))),
      BeginPath, MoveTo 0 0, LineTo (of_int (uint (innerWidth e))) (of_int (uint (innerHeight e))), Stroke]"
| "drawer_calls Static e =
     [BeginPath, MoveTo 0 0, LineTo (of_int (uint (innerWidth e))) (of_int (uint (innerHeight e))), Stroke]"

fun resize_pass :: "variant \<Rightarrow> real \<Rightarrow> host_env \<Rightarrow> call list" where
  "resize_pass Basic r e = sizer_calls Basic r e @ drawer_calls Basic e"
| "resize_pass Animated r e = sizer_calls Animated r e"
| "resize_pass Static r e = sizer_calls Static r e @ drawer_calls Static e"

text \<open>
  The viewport sizes current at each run of the Drawer along a sequence of events, as a
  reference: the basic and the static script draw at startup and at every resize, to the
  size just read; the animated script draws at every frame after the priming one, to
  the size read at startup or at the latest resize before the frame.
\<close>

fun draws_from :: "variant \<Rightarrow> bool \<Rightarrow> host_env \<Rightarrow> event list \<Rightarrow> (real \<times> real) list" where
  "draws_from v primed e [] = []"
| "draws_from v primed e (ResizeEvent e' # evs) =
     (if v = Animated then [] else [size_of v e']) @ draws_from v primed e' evs"
| "draws_from v primed e (FrameEvent t # evs) =
     (if v = Animated \<and> primed then [size_of v e] else []) @
     draws_from v (primed \<or> v = Animated) e evs"

definition draws :: "variant \<Rightarrow> host_env \<Rightarrow> event list \<Rightarrow> (real \<times> real) list" where
  "draws v env evs = (if v = Animated then [] else [size_of v env]) @ draws_from v False env evs"

text \<open>
  A ready page whose ViewportState is viewport \<open>e\<close>; \<open>primed\<close> says whether the priming
  frame has passed.
\<close>

definition tracked :: "variant \<Rightarrow> real \<Rightarrow> host_env \<Rightarrow> bool \<Rightarrow> page \<Rightarrow> bool" where
  "tracked v r e primed p =
     (ready v r p \<and>
      (v \<noteq> Basic \<longrightarrow> state_canvas_width p = uint (innerWidth e) \<and> state_canvas_height p = uint (innerHeight e)) \<and>
      (v = Animated \<longrightarrow> (primed \<longleftrightarrow> frame_requests p = [Loop])))"

text \<open>
  The statements a listener, a callback or a startup script executes, in order, with the
  statements of the functions it calls in place of the calls. The statements of \<open>loop\<close>
  depend on the page it starts from through \<open>dt\<close>.
\<close>

fun listener_statements :: "listener \<Rightarrow> host_env \<Rightarrow> step list" where
  "listener_statements ResizeDrawBasic env = resizeDraw_basic_body env"
| "listener_statements Resize env = resize_body env"
| "listener_statements ResizeDrawStatic env = resize_body env @ draw_static_body"

fun callback_statements :: "callback \<Rightarrow> real \<Rightarrow> page \<Rightarrow> step list" where
  "callback_statements Priming time p = priming_body time"
| "callback_statements Loop time p =
     [(\<lambda>p. Inr (p\<lparr>prevTime := time\<rparr>)),
      (\<lambda>q. update (time - prevTime p) (record_call (Update (time - prevTime p)) q))] @
     draw_animated_body @ [requestAnimationFrame_loop]"

fun script_statements :: "variant \<Rightarrow> document \<Rightarrow> host_env \<Rightarrow> step list" where
  "script_statements Basic doc env =
     [querySelector_canvas doc, getContext_2d doc, addEventListener ResizeDrawBasic] @
     resizeDraw_basic_body env"
| "script_statements Animated doc env =
     [querySelector_canvas doc, getContext_2d doc,
      (\<lambda>p. Inr (p\<lparr>pixelRatio := devicePixelRatio env\<rparr>)),
      (\<lambda>p. Inr (p\<lparr>state_canvas_width := 0, state_canvas_height := 0\<rparr>)),
      addEventListener Resize] @
     resize_body env @
     [(\<lambda>p. Inr (p\<lparr>prevTime := 0\<rparr>)),
      requestAnimationFrame Priming,
      (\<lambda>p. Inr (p\<lparr>loop_initialized := True\<rparr>))]"
| "script_statements Static doc env =
     [querySelector_canvas doc, getContext_2d doc,
      (\<lambda>p. Inr (p\<lparr>pixelRatio := devicePixelRatio env\<rparr>)),
      (\<lambda>p. Inr (p\<lparr>state_canvas_width := 0, state_canvas_height := 0\<rparr>)),
      addEventListener ResizeDrawStatic] @
     resize_body env @ draw_static_body"

text \<open>
  Every point of an execution: the pages reached after each statement (after the
  faulting one, the page the fault leaves), and the page each task ends with.
\<close>

fun run_points :: "step list \<Rightarrow> page \<Rightarrow> page list" where
  "run_points [] p = []"
| "run_points (s # ss) p =
     (case s p of Inl (e, q) \<Rightarrow> [q] | Inr q \<Rightarrow> q # run_points ss q)"

definition task_points :: "step list \<Rightarrow> page \<Rightarrow> page list" where
  "task_points ss p = run_points ss p @ [task (run ss) p]"

fun listeners_points :: "listener list \<Rightarrow> host_env \<Rightarrow> page \<Rightarrow> page list" where
  "listeners_points [] env p = []"
| "listeners_points (l # ls) env p =
     task_points (listener_statements l env) p @
     listeners_points ls env (task (run (listener_statements l env)) p)"

fun callbacks_points :: "callback list \<Rightarrow> real \<Rightarrow> page \<Rightarrow> page list" where
  "callbacks_points [] time p = []"
| "callbacks_points (cb # cbs) time p =
     task_points (callback_statements cb time p) p @
     callbacks_points cbs time (task (run (callback_statements cb time p)) p)"

fun deliver_points :: "event \<Rightarrow> page \<Rightarrow> page list" where
  "deliver_points (ResizeEvent env) p = listeners_points (listeners p) env p"
| "deliver_points (FrameEvent time) p =
     p\<lparr>frame_requests := []\<rparr> #
     callbacks_points (frame_requests p) time (p\<lparr>frame_requests := []\<rparr>)"

fun events_points :: "event list \<Rightarrow> page \<Rightarrow> page list" where
  "events_points [] p = []"
| "events_points (ev # evs) p = deliver_points ev p @ events_points evs (deliver ev p)"

definition execution_points :: "variant \<Rightarrow> document \<Rightarrow> host_env \<Rightarrow> event list \<Rightarrow> page list" where
  "execution_points v doc env evs =
     blank_page # task_points (script_statements v doc env) blank_page @
     events_points evs (startup v doc env)"





text \<open>The region \<open>clearRect 0 0 w h\<close> clears under transform \<open>m\<close>.\<close>

definition clear_region :: "matrix \<Rightarrow> real \<Rightarrow> real \<Rightarrow> (real \<times> real) list" where
  "clear_region m w h = map (apply_matrix m) [(0, 0), (w, 0), (w, h), (0, h)]"




text \<open>
  A ready page of the animated script whose canvas, transform and ViewportState are as
  the Sizer leaves them for viewport \<open>e\<close> and ratio \<open>r\<close>.
\<close>

definition animated_sized :: "real \<Rightarrow> host_env \<Rightarrow> page \<Rightarrow> bool" where
  "animated_sized r e p =
     (ready Animated r p \<and>
      (\<exists>c x. canvas p = Some c \<and> ctx p = Some x \<and> transform x = uniform_scale r \<and>
         width c = canvas_dimension 300 (of_int (uint (innerWidth e)) * r) \<and>
         height c = canvas_dimension 150 (of_int (uint (innerHeight e)) * r)) \<and>
      state_canvas_width p = uint (innerWidth e) \<and> state_canvas_height p = uint (innerHeight e))"

lemmas host_defs = set_canvas_width_def set_canvas_height_def set_style_width_def set_style_height_def
  ctx_scale_def ctx_clearRect_def ctx_beginPath_def ctx_moveTo_def ctx_lineTo_def ctx_stroke_def
  addEventListener_def requestAnimationFrame_def record_call_def
  resizeDraw_basic_body_def draw_animated_body_def resize_body_def priming_body_def
  draw_static_body_def

lemma canvas_dimension_floor:
  assumes "0 \<le> x" and "x < 2 ^ 31"
  shows "canvas_dimension d x = \<lfloor>x\<rfloor>"
proof -
  from assms have "0 \<le> \<lfloor>x\<rfloor>" and "\<lfloor>x\<rfloor> < 2 ^ 31" by (simp_all add: floor_less_iff)
  then show ?thesis using assms
    by (simp add: canvas_dimension_def to_unsigned_long_def Let_def)
qed

lemma canvas_dimension_of_int:
  assumes "0 \<le> n" and "n < 2 ^ 31"
  shows "canvas_dimension d (of_int n) = n"
  using assms by (subst canvas_dimension_floor) simp_all

lemma canvas_dimension_uint: "canvas_dimension d (of_int (uint (w :: 31 word))) = uint w"
proof -
  have "uint w < 2 ^ 31" using uint_lt2p [of w] by simp
  then show ?thesis
    by (intro canvas_dimension_of_int) simp_all
qed

lemma canvas_dimension_unsigned: "canvas_dimension d (unsigned (w :: 31 word)) = uint w"
  using canvas_dimension_uint [of d w] by simp

lemma canvas_dimension_nonneg: "0 \<le> d \<Longrightarrow> 0 \<le> canvas_dimension d x"
  by (simp add: canvas_dimension_def to_unsigned_long_def Let_def)

lemma resize_some:
  assumes "canvas p = Some c" and "ctx p = Some x"
  shows "resize env p =
    Inr (p\<lparr>canvas := Some (c\<lparr>width := canvas_dimension 300 (of_int (uint (innerWidth env)) * pixelRatio p),
              height := canvas_dimension 150 (of_int (uint (innerHeight env)) * pixelRatio p),
              style_width := px (uint (innerWidth env)), style_height := px (uint (innerHeight env))\<rparr>),
           ctx := Some (x\<lparr>transform := uniform_scale (pixelRatio p), path := [], surface := []\<rparr>),
           state_canvas_width := uint (innerWidth env), state_canvas_height := uint (innerHeight env),
           trace := trace p @ [SetCanvasWidth (of_int (uint (innerWidth env)) * pixelRatio p),
              SetCanvasHeight (of_int (uint (innerHeight env)) * pixelRatio p),
              SetStyleWidth (px (uint (innerWidth env))), SetStyleHeight (px (uint (innerHeight env))),
              Scale (pixelRatio p) (pixelRatio p)]\<rparr>)"
  using assms
  by (simp add: resize_def host_defs reset_context_def scale_matrix_def identity_def uniform_scale_def)

lemma draw_static_some:
  assumes "ctx p = Some x"
  shows "draw_static p =
    Inr (p\<lparr>ctx := Some (x\<lparr>path := line_path (transform x) (of_int (state_canvas_width p)) (of_int (state_canvas_height p)),
                surface := surface x @ [Stroked (line_path (transform x) (of_int (state_canvas_width p)) (of_int (state_canvas_height p)))]\<rparr>),
           trace := trace p @ [BeginPath, MoveTo 0 0,
              LineTo (of_int (state_canvas_width p)) (of_int (state_canvas_height p)), Stroke]\<rparr>)"
  using assms by (simp add: draw_static_def host_defs line_path_def)

lemma draw_animated_some:
  assumes "ctx p = Some x"
  shows "draw_animated p =
    Inr (p\<lparr>ctx := Some (x\<lparr>path := line_path (transform x) (of_int (state_canvas_width p)) (of_int (state_canvas_height p)),
                surface := surface x @
                  [Cleared (map (apply_matrix (transform x))
                     [(0, 0), (of_int (state_canvas_width p), 0),
                      (of_int (state_canvas_width p), of_int (state_canvas_height p)),
                      (0, of_int (state_canvas_height p))]),
                   Stroked (line_path (transform x) (of_int (state_canvas_width p)) (of_int (state_canvas_height p)))]\<rparr>),
           trace := trace p @ [ClearRect 0 0 (of_int (state_canvas_width p)) (of_int (state_canvas_height p)),
              BeginPath, MoveTo 0 0,
              LineTo (of_int (state_canvas_width p)) (of_int (state_canvas_height p)), Stroke]\<rparr>)"
  using assms by (simp add: draw_animated_def host_defs line_path_def)

lemma resizeDraw_basic_some:
  assumes "canvas p = Some c" and "ctx p = Some x"
  shows "resizeDraw_basic env p =
    Inr (p\<lparr>canvas := Some (c\<lparr>width := uint (clientWidth env), height := uint (clientHeight env)\<rparr>),
           ctx := Some (x\<lparr>transform := identity,
                path := line_path identity (of_int (uint (clientWidth env))) (of_int (uint (clientHeight env))),
                surface := [Stroked (line_path identity (of_int (uint (clientWidth env))) (of_int (uint (clientHeight env))))]\<rparr>),
           trace := trace p @ [SetCanvasWidth (of_int (uint (clientWidth env))), SetCanvasHeight (of_int (uint (clientHeight env))),
              BeginPath, MoveTo 0 0, LineTo (of_int (uint (clientWidth env))) (of_int (uint (clientHeight env))), Stroke]\<rparr>)"
  using assms
  by (simp add: resizeDraw_basic_def host_defs line_path_def reset_context_def
      canvas_dimension_unsigned)

lemma resizeDraw_static_some:
  assumes "canvas p = Some c" and "ctx p = Some x"
  shows "resizeDraw_static env p =
    Inr (p\<lparr>canvas := Some (c\<lparr>width := canvas_dimension 300 (of_int (uint (innerWidth env)) * pixelRatio p),
              height := canvas_dimension 150 (of_int (uint (innerHeight env)) * pixelRatio p),
              style_width := px (uint (innerWidth env)), style_height := px (uint (innerHeight env))\<rparr>),
           ctx := Some (x\<lparr>transform := uniform_scale (pixelRatio p),
              path := line_path (uniform_scale (pixelRatio p)) (of_int (uint (innerWidth env))) (of_int (uint (innerHeight env))),
              surface := [Stroked (line_path (uniform_scale (pixelRatio p)) (of_int (uint (innerWidth env))) (of_int (uint (innerHeight env))))]\<rparr>),
           state_canvas_width := uint (innerWidth env), state_canvas_height := uint (innerHeight env),
           trace := trace p @ [SetCanvasWidth (of_int (uint (innerWidth env)) * pixelRatio p),
              SetCanvasHeight (of_int (uint (innerHeight env)) * pixelRatio p),
              SetStyleWidth (px (uint (innerWidth env))), SetStyleHeight (px (uint (innerHeight env))),
              Scale (pixelRatio p) (pixelRatio p),
              BeginPath, MoveTo 0 0, LineTo (of_int (uint (innerWidth env))) (of_int (uint (innerHeight env))), Stroke]\<rparr>)"
  using assms by (simp add: resizeDraw_static_def resize_some draw_static_some)

lemma priming_some:
  assumes "loop_initialized p"
  shows "priming time p =
    Inr (p\<lparr>prevTime := time, frame_requests := frame_requests p @ [Loop],
           trace := trace p @ [RequestAnimationFrame Loop]\<rparr>)"
  using assms by (simp add: priming_def requestAnimationFrame_loop_def host_defs)

lemma loop_some:
  assumes "ctx p = Some x" and "loop_initialized p"
  shows "loop time p =
    Inr (p\<lparr>ctx := Some (x\<lparr>path := line_path (transform x) (of_int (state_canvas_width p)) (of_int (state_canvas_height p)),
                surface := surface x @
                  [Cleared (map (apply_matrix (transform x))
                     [(0, 0), (of_int (state_canvas_width p), 0),
                      (of_int (state_canvas_width p), of_int (state_canvas_height p)),
                      (0, of_int (state_canvas_height p))]),
                   Stroked (line_path (transform x) (of_int (state_canvas_width p)) (of_int (state_canvas_height p)))]\<rparr>),
           prevTime := time, frame_requests := frame_requests p @ [Loop],
           trace := trace p @ [Update (time - prevTime p),
              ClearRect 0 0 (of_int (state_canvas_width p)) (of_int (state_canvas_height p)),
              BeginPath, MoveTo 0 0,
              LineTo (of_int (state_canvas_width p)) (of_int (state_canvas_height p)), Stroke,
              RequestAnimationFrame Loop]\<rparr>)"
  using assms
  by (simp add: loop_def Let_def update_def draw_animated_some requestAnimationFrame_loop_def
      requestAnimationFrame_def record_call_def)

lemma startup_basic_some:
  assumes "doc_canvas doc = Some c" and "doc_context doc = Some x"
  shows "startup Basic doc env =
    blank_page\<lparr>canvas := Some (c\<lparr>width := uint (clientWidth env), height := uint (clientHeight env)\<rparr>),
       ctx := Some (x\<lparr>transform := identity,
                path := line_path identity (of_int (uint (clientWidth env))) (of_int (uint (clientHeight env))),
                surface := [Stroked (line_path identity (of_int (uint (clientWidth env))) (of_int (uint (clientHeight env))))]\<rparr>),
       listeners := [ResizeDrawBasic],
       trace := [AddEventListener ResizeDrawBasic,
              SetCanvasWidth (of_int (uint (clientWidth env))), SetCanvasHeight (of_int (uint (clientHeight env))),
              BeginPath, MoveTo 0 0, LineTo (of_int (uint (clientWidth env))) (of_int (uint (clientHeight env))), Stroke]\<rparr>"
  using assms
  by (simp add: startup_def task_def script_basic_def querySelector_canvas_def getContext_2d_def
      addEventListener_def record_call_def resizeDraw_basic_some blank_page_def)

lemma startup_static_some:
  assumes "doc_canvas doc = Some c" and "doc_context doc = Some x"
  shows "startup Static doc env =
    blank_page\<lparr>canvas := Some (c\<lparr>width := canvas_dimension 300 (of_int (uint (innerWidth env)) * devicePixelRatio env),
              height := canvas_dimension 150 (of_int (uint (innerHeight env)) * devicePixelRatio env),
              style_width := px (uint (innerWidth env)), style_height := px (uint (innerHeight env))\<rparr>),
       ctx := Some (x\<lparr>transform := uniform_scale (devicePixelRatio env),
              path := line_path (uniform_scale (devicePixelRatio env)) (of_int (uint (innerWidth env))) (of_int (uint (innerHeight env))),
              surface := [Stroked (line_path (uniform_scale (devicePixelRatio env)) (of_int (uint (innerWidth env))) (of_int (uint (innerHeight env))))]\<rparr>),
       pixelRatio := devicePixelRatio env,
       state_canvas_width := uint (innerWidth env), state_canvas_height := uint (innerHeight env),
       listeners := [ResizeDrawStatic],
       trace := [AddEventListener ResizeDrawStatic,
              SetCanvasWidth (of_int (uint (innerWidth env)) * devicePixelRatio env),
              SetCanvasHeight (of_int (uint (innerHeight env)) * devicePixelRatio env),
              SetStyleWidth (px (uint (innerWidth env))), SetStyleHeight (px (uint (innerHeight env))),
              Scale (devicePixelRatio env) (devicePixelRatio env),
              BeginPath, MoveTo 0 0, LineTo (of_int (uint (innerWidth env))) (of_int (uint (innerHeight env))), Stroke]\<rparr>"
  using assms
  by (simp add: startup_def task_def script_static_def querySelector_canvas_def getContext_2d_def
      addEventListener_def record_call_def resizeDraw_static_some blank_page_def)

lemma startup_animated_some:
  assumes "doc_canvas doc = Some c" and "doc_context doc = Some x"
  shows "startup Animated doc env =
    blank_page\<lparr>canvas := Some (c\<lparr>width := canvas_dimension 300 (of_int (uint (innerWidth env)) * devicePixelRatio env),
              height := canvas_dimension 150 (of_int (uint (innerHeight env)) * devicePixelRatio env),
              style_width := px (uint (innerWidth env)), style_height := px (uint (innerHeight env))\<rparr>),
       ctx := Some (x\<lparr>transform := uniform_scale (devicePixelRatio env), path := [], surface := []\<rparr>),
       pixelRatio := devicePixelRatio env,
       state_canvas_width := uint (innerWidth env), state_canvas_height := uint (innerHeight env),
       loop_initialized := True,
       listeners := [Resize],
       frame_requests := [Priming],
       trace := [AddEventListener Resize,
              SetCanvasWidth (of_int (uint (innerWidth env)) * devicePixelRatio env),
              SetCanvasHeight (of_int (uint (innerHeight env)) * devicePixelRatio env),
              SetStyleWidth (px (uint (innerWidth env))), SetStyleHeight (px (uint (innerHeight env))),
              Scale (devicePixelRatio env) (devicePixelRatio env),
              RequestAnimationFrame Priming]\<rparr>"
  using assms
  by (simp add: startup_def task_def script_animated_def querySelector_canvas_def getContext_2d_def
      addEventListener_def requestAnimationFrame_def record_call_def resize_some blank_page_def)

lemma ready_startup:
  assumes "doc_canvas doc = Some c" and "doc_context doc = Some x"
  shows "ready v (devicePixelRatio env) (startup v doc env)"
proof (cases v)
  case Basic
  then show ?thesis
    by (simp add: ready_def startup_basic_some [OF assms] blank_page_def)
next
  case Animated
  then show ?thesis
    by (simp add: ready_def startup_animated_some [OF assms] blank_page_def)
next
  case Static
  then show ?thesis
    by (simp add: ready_def startup_static_some [OF assms] blank_page_def)
qed

lemma deliver_resize_ready:
  assumes "ready v r p"
  shows "deliver (ResizeEvent env) p = task (listener_fn (listener_of v) env) p"
  using assms by (simp add: ready_def)

lemma ready_deliver:
  assumes "ready v r p"
  shows "ready v r (deliver ev p)"
proof -
  from assms obtain c x where c: "canvas p = Some c" and x: "ctx p = Some x"
    by (auto simp: ready_def)
  show ?thesis
  proof (cases ev)
    case (ResizeEvent env)
    show ?thesis
    proof (cases v)
      case Basic
      with assms ResizeEvent show ?thesis
        by (simp add: ready_def task_def resizeDraw_basic_some [OF c x])
    next
      case Animated
      with assms ResizeEvent show ?thesis
        by (simp add: ready_def task_def resize_some [OF c x])
    next
      case Static
      with assms ResizeEvent show ?thesis
        by (simp add: ready_def task_def resizeDraw_static_some [OF c x])
    qed
  next
    case (FrameEvent time)
    show ?thesis
    proof (cases v)
      case Basic
      with assms FrameEvent show ?thesis by (simp add: ready_def)
    next
      case Static
      with assms FrameEvent show ?thesis by (simp add: ready_def)
    next
      case Animated
      with assms have li: "loop_initialized p"
        and fr: "frame_requests p = [Priming] \<or> frame_requests p = [Loop]"
        by (simp_all add: ready_def)
      from fr show ?thesis
      proof
        assume "frame_requests p = [Priming]"
        with assms Animated FrameEvent li show ?thesis
          by (simp add: ready_def task_def priming_some)
      next
        assume "frame_requests p = [Loop]"
        with assms Animated FrameEvent li c x show ?thesis
          by (simp add: ready_def task_def loop_some)
      qed
    qed
  qed
qed

lemma ready_fold:
  assumes "ready v r p"
  shows "ready v r (fold deliver evs p)"
  using assms by (induction evs arbitrary: p) (simp_all add: ready_deliver)

lemma ready_execution:
  assumes "doc_canvas doc = Some c" and "doc_context doc = Some x"
  shows "ready v (devicePixelRatio env) (execution v doc env evs)"
  unfolding execution_def by (rule ready_fold [OF ready_startup [OF assms]])

lemma execution_snoc: "execution v doc env (evs @ [ev]) = deliver ev (execution v doc env evs)"
  by (simp add: execution_def)







lemma scale_compounds:
  "run [ctx_scale r r, ctx_scale r r] (p\<lparr>ctx := Some (x\<lparr>transform := identity\<rparr>)\<rparr>) =
     Inr (p\<lparr>ctx := Some (x\<lparr>transform := uniform_scale (r * r)\<rparr>),
            trace := trace p @ [Scale r r, Scale r r]\<rparr>)"
  by (simp add: ctx_scale_def record_call_def scale_matrix_def identity_def uniform_scale_def)

lemma keeps_run: "list_all (keeps P E) ss \<Longrightarrow> keeps P E (run ss)"
proof (induction ss)
  case Nil
  show ?case by (simp add: keeps_def)
next
  case (Cons s ss)
  then have s: "keeps P E s" and ss: "keeps P E (run ss)" by simp_all
  show ?case
    unfolding keeps_def
  proof (intro allI impI)
    fix p assume "P p"
    with s have *: "case s p of Inl (e, p') \<Rightarrow> E e \<and> P p' | Inr p' \<Rightarrow> P p'"
      by (simp add: keeps_def)
    show "case run (s # ss) p of Inl (e, p') \<Rightarrow> E e \<and> P p' | Inr p' \<Rightarrow> P p'"
    proof (cases "s p")
      case (Inl a)
      with * show ?thesis by simp
    next
      case (Inr q)
      with * have "P q" by simp
      with ss have "case run ss q of Inl (e, p') \<Rightarrow> E e \<and> P p' | Inr p' \<Rightarrow> P p'"
        by (simp add: keeps_def)
      with Inr show ?thesis by simp
    qed
  qed
qed

lemma keeps_task:
  assumes k: "keeps P E s" and p: "P p"
    and u: "\<And>p e. P p \<Longrightarrow> E e \<Longrightarrow> P (p\<lparr>uncaught := uncaught p @ [e]\<rparr>)"
  shows "P (task s p)"
proof -
  from k p have *: "case s p of Inl (e, p') \<Rightarrow> E e \<and> P p' | Inr p' \<Rightarrow> P p'"
    by (simp add: keeps_def)
  show ?thesis
  proof (cases "s p")
    case (Inl a)
    obtain e q where a: "a = (e, q)" by (cases a)
    with * Inl have "E e" and "P q" by simp_all
    then show ?thesis using Inl a u by (simp add: task_def)
  next
    case (Inr q)
    with * show ?thesis by (simp add: task_def)
  qed
qed

lemma fold_invariant:
  assumes "\<And>x p. P p \<Longrightarrow> P (f x p)" and "P p"
  shows "P (fold f xs p)"
  using assms(2) by (induction xs arbitrary: p) (simp_all add: assms(1))

lemmas script_defs = resizeDraw_basic_def resize_def resizeDraw_static_def draw_static_def
  draw_animated_def priming_def

lemma keeps_weaken:
  assumes "keeps P E s" and "P p"
  shows "case s p of Inl (e, p') \<Rightarrow> E e \<and> P p' | Inr p' \<Rightarrow> P p'"
  using assms by (simp add: keeps_def)

lemma keeps_disj:
  assumes "keeps P E s" and "keeps Q E s"
  shows "keeps (\<lambda>p. P p \<or> Q p) E s"
  unfolding keeps_def
proof (intro allI impI)
  fix p assume "P p \<or> Q p"
  then show "case s p of Inl (e, p') \<Rightarrow> E e \<and> (P p' \<or> Q p') | Inr p' \<Rightarrow> P p' \<or> Q p'"
  proof
    assume "P p"
    from keeps_weaken [OF assms(1) this] show ?thesis
      by (cases "s p") (simp_all split: prod.splits)
  next
    assume "Q p"
    from keeps_weaken [OF assms(2) this] show ?thesis
      by (cases "s p") (simp_all split: prod.splits)
  qed
qed

lemma keeps_loop:
  assumes "\<And>dt. keeps P E (run [(\<lambda>p. Inr (p\<lparr>prevTime := time\<rparr>)),
           (\<lambda>p. update dt (record_call (Update dt) p)),
           draw_animated,
           requestAnimationFrame_loop])"
  shows "keeps P E (loop time)"
  unfolding keeps_def
proof (intro allI impI)
  fix p assume "P p"
  from keeps_weaken [OF assms this, of "time - prevTime p"]
  show "case loop time p of Inl (e, p') \<Rightarrow> E e \<and> P p' | Inr p' \<Rightarrow> P p'"
    by (simp add: loop_def Let_def)
qed

lemma keeps_loop_declared:
  "keeps loop_declared no_reference_error (resize env)"
  "keeps loop_declared no_reference_error draw_static"
  "keeps loop_declared no_reference_error draw_animated"
  "keeps loop_declared no_reference_error (resizeDraw_basic env)"
  "keeps loop_declared no_reference_error (priming time)"
  unfolding script_defs
  by (rule keeps_run, simp add: keeps_def host_defs no_reference_error_def loop_declared_def
      requestAnimationFrame_loop_def split: option.splits)+

lemma keeps_loop_declared_static:
  "keeps loop_declared no_reference_error (resizeDraw_static env)"
  unfolding resizeDraw_static_def
  by (rule keeps_run) (simp add: keeps_loop_declared)

lemma keeps_loop_declared_loop:
  "keeps loop_declared no_reference_error (loop time)"
proof (rule keeps_loop, rule keeps_run)
  fix dt
  have "keeps loop_declared no_reference_error (\<lambda>p. Inr (p\<lparr>prevTime := time\<rparr>))"
    and "keeps loop_declared no_reference_error (\<lambda>p. update dt (record_call (Update dt) p))"
    and "keeps loop_declared no_reference_error requestAnimationFrame_loop"
    by (simp_all add: keeps_def update_def record_call_def loop_declared_def
        requestAnimationFrame_loop_def requestAnimationFrame_def no_reference_error_def)
  then show "list_all (keeps loop_declared no_reference_error)
     [(\<lambda>p. Inr (p\<lparr>prevTime := time\<rparr>)), (\<lambda>p. update dt (record_call (Update dt) p)),
      draw_animated, requestAnimationFrame_loop]"
    by (simp add: keeps_loop_declared)
qed

lemma keeps_no_requests:
  "keeps no_requests no_reference_error (resize env)"
  "keeps no_requests no_reference_error draw_static"
  "keeps no_requests no_reference_error (resizeDraw_basic env)"
  unfolding script_defs
  by (rule keeps_run, simp add: keeps_def host_defs no_reference_error_def no_requests_def
      split: option.splits)+

lemma keeps_no_requests_static:
  "keeps no_requests no_reference_error (resizeDraw_static env)"
  unfolding resizeDraw_static_def
  by (rule keeps_run) (simp add: keeps_no_requests)

lemma keeps_never_reference_error_listener:
  "keeps never_reference_error no_reference_error (listener_fn l env)"
proof -
  have "keeps loop_declared no_reference_error (listener_fn l env)"
    by (cases l) (simp_all add: keeps_loop_declared keeps_loop_declared_static)
  moreover have "keeps no_requests no_reference_error (listener_fn l env)"
    by (cases l) (simp_all add: keeps_no_requests keeps_no_requests_static)
  ultimately have "keeps (\<lambda>p. loop_declared p \<or> no_requests p) no_reference_error (listener_fn l env)"
    by (rule keeps_disj)
  moreover have "never_reference_error = (\<lambda>p. loop_declared p \<or> no_requests p)"
    by (simp add: fun_eq_iff never_reference_error_def)
  ultimately show ?thesis by simp
qed

lemma keeps_loop_declared_callback:
  "keeps loop_declared no_reference_error (callback_fn cb time)"
  by (cases cb) (simp_all add: keeps_loop_declared keeps_loop_declared_loop)

lemma never_reference_error_deliver:
  assumes "never_reference_error p"
  shows "never_reference_error (deliver ev p)"
proof (cases ev)
  case (ResizeEvent env)
  have "never_reference_error (fold (\<lambda>l. task (listener_fn l env)) (listeners p) p)"
  proof (rule fold_invariant [where P = never_reference_error])
    fix l q assume "never_reference_error q"
    with keeps_never_reference_error_listener show "never_reference_error (task (listener_fn l env) q)"
      by (rule keeps_task)
        (auto simp: never_reference_error_def loop_declared_def no_requests_def no_reference_error_def)
  qed (rule assms)
  with ResizeEvent show ?thesis by simp
next
  case (FrameEvent time)
  show ?thesis
  proof (cases "frame_requests p = []")
    case True
    with assms FrameEvent show ?thesis
      by (simp add: never_reference_error_def loop_declared_def no_requests_def)
  next
    case False
    with assms have lb: "loop_declared (p\<lparr>frame_requests := []\<rparr>)"
      by (simp add: never_reference_error_def loop_declared_def no_requests_def)
    have "loop_declared (fold (\<lambda>cb. task (callback_fn cb time)) (frame_requests p) (p\<lparr>frame_requests := []\<rparr>))"
    proof (rule fold_invariant [where P = loop_declared])
      fix cb q assume "loop_declared q"
      with keeps_loop_declared_callback show "loop_declared (task (callback_fn cb time) q)"
        by (rule keeps_task) (auto simp: loop_declared_def no_reference_error_def)
    qed (rule lb)
    with FrameEvent show ?thesis by (simp add: never_reference_error_def)
  qed
qed

lemma script_no_canvas:
  assumes "doc_canvas doc = None"
  shows "script v doc env blank_page = Inl (TypeError, blank_page)"
  using assms
  by (cases v)
    (simp_all add: script_basic_def script_animated_def script_static_def querySelector_canvas_def
      getContext_2d_def blank_page_def)

lemma script_basic_no_context:
  assumes "doc_canvas doc = Some c" and "doc_context doc = None"
  shows "script Basic doc env blank_page =
    Inl (TypeError, blank_page\<lparr>canvas := Some (c\<lparr>width := uint (clientWidth env),
             height := uint (clientHeight env)\<rparr>),
           listeners := [ResizeDrawBasic],
           trace := [AddEventListener ResizeDrawBasic, SetCanvasWidth (of_int (uint (clientWidth env))),
             SetCanvasHeight (of_int (uint (clientHeight env)))]\<rparr>)"
  using assms
  by (simp add: script_basic_def querySelector_canvas_def getContext_2d_def blank_page_def
      resizeDraw_basic_def host_defs canvas_dimension_unsigned)

lemma script_animated_no_context:
  assumes "doc_canvas doc = Some c" and "doc_context doc = None"
  shows "script Animated doc env blank_page =
    Inl (TypeError, blank_page\<lparr>canvas := Some (c\<lparr>width := canvas_dimension 300 (of_int (uint (innerWidth env)) * devicePixelRatio env),
             height := canvas_dimension 150 (of_int (uint (innerHeight env)) * devicePixelRatio env),
             style_width := px (uint (innerWidth env)), style_height := px (uint (innerHeight env))\<rparr>),
           pixelRatio := devicePixelRatio env,
           listeners := [Resize],
           trace := [AddEventListener Resize,
             SetCanvasWidth (of_int (uint (innerWidth env)) * devicePixelRatio env),
             SetCanvasHeight (of_int (uint (innerHeight env)) * devicePixelRatio env),
             SetStyleWidth (px (uint (innerWidth env))), SetStyleHeight (px (uint (innerHeight env)))]\<rparr>)"
  using assms
  by (simp add: script_animated_def querySelector_canvas_def getContext_2d_def blank_page_def
      resize_def host_defs)

lemma script_static_no_context:
  assumes "doc_canvas doc = Some c" and "doc_context doc = None"
  shows "script Static doc env blank_page =
    Inl (TypeError, blank_page\<lparr>canvas := Some (c\<lparr>width := canvas_dimension 300 (of_int (uint (innerWidth env)) * devicePixelRatio env),
             height := canvas_dimension 150 (of_int (uint (innerHeight env)) * devicePixelRatio env),
             style_width := px (uint (innerWidth env)), style_height := px (uint (innerHeight env))\<rparr>),
           pixelRatio := devicePixelRatio env,
           listeners := [ResizeDrawStatic],
           trace := [AddEventListener ResizeDrawStatic,
             SetCanvasWidth (of_int (uint (innerWidth env)) * devicePixelRatio env),
             SetCanvasHeight (of_int (uint (innerHeight env)) * devicePixelRatio env),
             SetStyleWidth (px (uint (innerWidth env))), SetStyleHeight (px (uint (innerHeight env)))]\<rparr>)"
  using assms
  by (simp add: script_static_def querySelector_canvas_def getContext_2d_def blank_page_def
      resizeDraw_static_def resize_def host_defs)

lemma script_faults:
  assumes "doc_canvas doc = None \<or> doc_context doc = None"
  shows "\<exists>p. script v doc env blank_page = Inl (TypeError, p) \<and> ctx p = None \<and>
    frame_requests p = [] \<and> Stroke \<notin> set (trace p) \<and> uncaught p = [] \<and> \<not> loop_initialized p \<and>
    state_canvas_width p = 0 \<and> state_canvas_height p = 0"
proof (cases "doc_canvas doc")
  case None
  then show ?thesis
    by (simp only: script_no_canvas) (simp add: blank_page_def)
next
  case (Some c)
  with assms have x: "doc_context doc = None" by simp
  show ?thesis
    by (cases v; simp only: script_basic_no_context [OF Some x]
        script_animated_no_context [OF Some x] script_static_no_context [OF Some x])
      (simp_all add: blank_page_def)
qed

lemma never_reference_error_startup: "never_reference_error (startup v doc env)"
proof (cases "doc_canvas doc = None \<or> doc_context doc = None")
  case True
  from script_faults [OF this, of v env] show ?thesis
    by (auto simp: startup_def task_def never_reference_error_def no_requests_def)
next
  case False
  then obtain c x where c: "doc_canvas doc = Some c" and x: "doc_context doc = Some x" by auto
  show ?thesis
    by (cases v)
      (simp_all add: startup_basic_some [OF c x] startup_animated_some [OF c x]
        startup_static_some [OF c x] never_reference_error_def no_requests_def loop_declared_def
        blank_page_def)
qed

lemma never_reference_error_execution: "never_reference_error (execution v doc env evs)"
  unfolding execution_def
  by (rule fold_invariant [where P = never_reference_error])
    (simp_all add: never_reference_error_deliver never_reference_error_startup)

lemma priming_before_declaration:
  "\<not> loop_initialized p \<Longrightarrow> priming time p = Inl (ReferenceError, p\<lparr>prevTime := time\<rparr>)"
  by (simp add: priming_def priming_body_def requestAnimationFrame_loop_def)

lemma keeps_never_draws:
  "keeps never_draws any_error (resize env)"
  "keeps never_draws any_error draw_static"
  "keeps never_draws any_error (resizeDraw_basic env)"
  unfolding script_defs
  by (rule keeps_run, simp add: keeps_def host_defs any_error_def never_draws_def
      split: option.splits)+

lemma keeps_never_draws_listener:
  "keeps never_draws any_error (listener_fn l env)"
proof (cases l)
  case ResizeDrawStatic
  have "keeps never_draws any_error (resizeDraw_static env)"
    unfolding resizeDraw_static_def
    by (rule keeps_run) (simp add: keeps_never_draws)
  with ResizeDrawStatic show ?thesis by simp
qed (simp_all add: keeps_never_draws)

lemma never_draws_deliver:
  assumes "never_draws p"
  shows "never_draws (deliver ev p)"
proof (cases ev)
  case (ResizeEvent env)
  have "never_draws (fold (\<lambda>l. task (listener_fn l env)) (listeners p) p)"
  proof (rule fold_invariant [where P = never_draws])
    fix l q assume "never_draws q"
    with keeps_never_draws_listener show "never_draws (task (listener_fn l env) q)"
      by (rule keeps_task) (simp add: never_draws_def)
  qed (rule assms)
  with ResizeEvent show ?thesis by simp
next
  case (FrameEvent time)
  with assms show ?thesis by (simp add: never_draws_def)
qed

lemma never_draws_startup:
  assumes "doc_canvas doc = None \<or> doc_context doc = None"
  shows "never_draws (startup v doc env)" and "uncaught (startup v doc env) = [TypeError]"
  using script_faults [OF assms, of v env]
  by (auto simp: startup_def task_def never_draws_def)

lemma listener_fn_same_viewport:
  assumes "innerWidth a = innerWidth b" and "innerHeight a = innerHeight b"
    and "clientWidth a = clientWidth b" and "clientHeight a = clientHeight b"
  shows "listener_fn l a = listener_fn l b"
  using assms
  by (cases l)
    (simp_all add: resizeDraw_basic_def resizeDraw_basic_body_def resize_def resize_body_def
      resizeDraw_static_def)

lemma deliver_same_viewport:
  assumes "same_viewport ev ev'"
  shows "deliver ev = deliver ev'"
proof (cases ev)
  case a: (ResizeEvent a)
  with assms obtain b where b: "ev' = ResizeEvent b" by (cases ev') auto
  with assms a have eq: "listener_fn l a = listener_fn l b" for l
    by (intro listener_fn_same_viewport) simp_all
  show ?thesis unfolding a b by (rule ext) (simp add: eq)
next
  case s: (FrameEvent s)
  with assms show ?thesis by (cases ev') auto
qed

lemma fold_deliver_same_viewport:
  assumes "list_all2 same_viewport evs evs'"
  shows "fold deliver evs p = fold deliver evs' p"
  using assms
proof (induction evs evs' arbitrary: p rule: list_all2_induct)
  case Nil
  show ?case by simp
next
  case (Cons ev evs ev' evs')
  then show ?case by (simp add: deliver_same_viewport [of ev ev'])
qed

lemma startup_ratio_matters:
  "startup Static canvas_document (viewport 800 600 1) \<noteq> startup Static canvas_document (viewport 800 600 2)"
proof
  assume "startup Static canvas_document (viewport 800 600 1) = startup Static canvas_document (viewport 800 600 2)"
  then have "pixelRatio (startup Static canvas_document (viewport 800 600 1))
      = pixelRatio (startup Static canvas_document (viewport 800 600 2))" by simp
  moreover have "doc_canvas canvas_document = Some default_canvas"
    and "doc_context canvas_document = Some default_context"
    by (simp_all add: canvas_document_def)
  ultimately show False
    by (simp add: startup_static_some viewport_def)
qed

lemma updates_append: "updates (cs @ ds) = updates cs @ updates ds"
  by (induction cs rule: updates.induct) simp_all

lemma frame_times_append: "frame_times (evs @ evs') = frame_times evs @ frame_times evs'"
  by (induction evs rule: frame_times.induct) simp_all

lemma dts_snoc: "ts \<noteq> [] \<Longrightarrow> dts (ts @ [t]) = dts ts @ [t - last ts]"
  by (induction ts rule: dts.induct) auto

lemma dts_nonneg: "sorted ts \<Longrightarrow> d \<in> set (dts ts) \<Longrightarrow> 0 \<le> d"
  by (induction ts rule: dts.induct) auto

lemma deliver_priming:
  assumes "ready Animated r p" and "frame_requests p = [Priming]"
  shows "deliver (FrameEvent t) p =
    p\<lparr>prevTime := t, frame_requests := [Loop], trace := trace p @ [RequestAnimationFrame Loop]\<rparr>"
  using assms by (simp add: ready_def task_def priming_some)

lemma deliver_loop:
  assumes "ready Animated r p" and "frame_requests p = [Loop]" and "ctx p = Some x"
  shows "deliver (FrameEvent t) p =
    p\<lparr>ctx := Some (x\<lparr>path := line_path (transform x) (of_int (state_canvas_width p)) (of_int (state_canvas_height p)),
                surface := surface x @
                  [Cleared (map (apply_matrix (transform x))
                     [(0, 0), (of_int (state_canvas_width p), 0),
                      (of_int (state_canvas_width p), of_int (state_canvas_height p)),
                      (0, of_int (state_canvas_height p))]),
                   Stroked (line_path (transform x) (of_int (state_canvas_width p)) (of_int (state_canvas_height p)))]\<rparr>),
       prevTime := t, frame_requests := [Loop],
       trace := trace p @ [Update (t - prevTime p),
              ClearRect 0 0 (of_int (state_canvas_width p)) (of_int (state_canvas_height p)),
              BeginPath, MoveTo 0 0,
              LineTo (of_int (state_canvas_width p)) (of_int (state_canvas_height p)), Stroke,
              RequestAnimationFrame Loop]\<rparr>"
  using assms by (simp add: ready_def task_def loop_some)

lemma frame_state_deliver:
  assumes r: "ready Animated r p" and f: "frame_state ts p"
  shows "frame_state (ts @ frame_times [ev]) (deliver ev p)"
proof -
  from r obtain c x where c: "canvas p = Some c" and x: "ctx p = Some x"
    by (auto simp: ready_def)
  from r have li: "loop_initialized p" by (simp add: ready_def)
  show ?thesis
  proof (cases ev)
    case (ResizeEvent env)
    with r f show ?thesis
      by (simp add: ready_def task_def resize_some [OF c x] frame_state_def updates_append)
  next
    case (FrameEvent t)
    show ?thesis
    proof (cases "ts = []")
      case True
      with f have "frame_requests p = [Priming]" by (simp add: frame_state_def)
      from deliver_priming [OF r this] f True FrameEvent show ?thesis
        by (simp add: frame_state_def updates_append)
    next
      case False
      with f have "frame_requests p = [Loop]" and "prevTime p = last ts"
        by (simp_all add: frame_state_def)
      from deliver_loop [OF r this(1) x] this(2) f False FrameEvent show ?thesis
        by (simp add: frame_state_def updates_append dts_snoc)
    qed
  qed
qed

lemma frame_state_execution:
  assumes c: "doc_canvas doc = Some c" and x: "doc_context doc = Some x"
  shows "frame_state (frame_times evs) (execution Animated doc env evs)"
proof (induction evs rule: rev_induct)
  case Nil
  show ?case
    by (simp add: execution_def startup_animated_some [OF c x] frame_state_def blank_page_def)
next
  case (snoc ev evs)
  from frame_state_deliver [OF ready_execution [OF c x] snoc.IH, of ev]
  show ?case by (simp add: execution_snoc frame_times_append del: deliver.simps)
qed

lemma line_ends_append: "line_ends (cs @ ds) = line_ends cs @ line_ends ds"
  by (induction cs rule: line_ends.induct) simp_all

lemma deliver_resize:
  assumes "ready v r p"
  shows "trace (deliver (ResizeEvent e) p) = trace p @ resize_pass v r e"
    and "v \<noteq> Basic \<Longrightarrow> state_canvas_width (deliver (ResizeEvent e) p) = uint (innerWidth e)"
    and "v \<noteq> Basic \<Longrightarrow> state_canvas_height (deliver (ResizeEvent e) p) = uint (innerHeight e)"
    and "frame_requests (deliver (ResizeEvent e) p) = frame_requests p"
proof -
  from assms obtain c x where c: "canvas p = Some c" and x: "ctx p = Some x"
    by (auto simp: ready_def)
  note results = resizeDraw_basic_some [OF c x] resize_some [OF c x] resizeDraw_static_some [OF c x]
  from assms show "trace (deliver (ResizeEvent e) p) = trace p @ resize_pass v r e"
    by (cases v) (simp_all add: ready_def task_def results)
  from assms show "v \<noteq> Basic \<Longrightarrow> state_canvas_width (deliver (ResizeEvent e) p) = uint (innerWidth e)"
    by (cases v) (simp_all add: ready_def task_def results)
  from assms show "v \<noteq> Basic \<Longrightarrow> state_canvas_height (deliver (ResizeEvent e) p) = uint (innerHeight e)"
    by (cases v) (simp_all add: ready_def task_def results)
  from assms show "frame_requests (deliver (ResizeEvent e) p) = frame_requests p"
    by (cases v) (simp_all add: ready_def task_def results)
qed

lemma tracked_resize:
  assumes "tracked v r e primed p"
  shows "tracked v r e' primed (deliver (ResizeEvent e') p)"
    and "line_ends (trace (deliver (ResizeEvent e') p)) =
      line_ends (trace p) @ (if v = Animated then [] else [size_of v e'])"
proof -
  from assms have r: "ready v r p" by (simp add: tracked_def)
  from assms show "tracked v r e' primed (deliver (ResizeEvent e') p)"
    by (simp add: tracked_def ready_deliver [OF r] deliver_resize [OF r] del: deliver.simps)
  show "line_ends (trace (deliver (ResizeEvent e') p)) =
      line_ends (trace p) @ (if v = Animated then [] else [size_of v e'])"
    by (cases v) (simp_all add: deliver_resize [OF r] line_ends_append del: deliver.simps)
qed

lemma tracked_frame:
  assumes "tracked v r e primed p"
  shows "tracked v r e (primed \<or> v = Animated) (deliver (FrameEvent t) p)"
    and "line_ends (trace (deliver (FrameEvent t) p)) =
      line_ends (trace p) @ (if v = Animated \<and> primed then [size_of v e] else [])"
proof -
  from assms have r: "ready v r p" by (simp add: tracked_def)
  then obtain x where x: "ctx p = Some x" by (auto simp: ready_def)
  have "tracked v r e (primed \<or> v = Animated) (deliver (FrameEvent t) p) \<and>
    line_ends (trace (deliver (FrameEvent t) p)) =
      line_ends (trace p) @ (if v = Animated \<and> primed then [size_of v e] else [])"
  proof (cases "v = Animated")
    case False
    with assms show ?thesis by (cases v) (simp_all add: tracked_def ready_def)
  next
    case True
    note r' = r [unfolded True]
    show ?thesis
    proof (cases primed)
      case True
      with assms \<open>v = Animated\<close> have fr: "frame_requests p = [Loop]" by (simp add: tracked_def)
      from assms ready_deliver [OF r', of "FrameEvent t"] True \<open>v = Animated\<close> show ?thesis
        unfolding deliver_loop [OF r' fr x]
        by (simp add: tracked_def line_ends_append)
    next
      case False
      with assms \<open>v = Animated\<close> r have fr: "frame_requests p = [Priming]"
        by (auto simp: tracked_def ready_def)
      from assms ready_deliver [OF r', of "FrameEvent t"] False \<open>v = Animated\<close> show ?thesis
        unfolding deliver_priming [OF r' fr]
        by (simp add: tracked_def line_ends_append)
    qed
  qed
  then show "tracked v r e (primed \<or> v = Animated) (deliver (FrameEvent t) p)"
    and "line_ends (trace (deliver (FrameEvent t) p)) =
      line_ends (trace p) @ (if v = Animated \<and> primed then [size_of v e] else [])"
    by simp_all
qed

lemma tracked_fold:
  assumes "tracked v r e primed p"
  shows "line_ends (trace (fold deliver evs p)) = line_ends (trace p) @ draws_from v primed e evs
    \<and> (v \<noteq> Basic \<longrightarrow>
        state_canvas_width (fold deliver evs p) = uint (innerWidth (latest e evs)) \<and>
        state_canvas_height (fold deliver evs p) = uint (innerHeight (latest e evs)))"
  using assms
proof (induction evs arbitrary: p e primed)
  case Nil
  then show ?case by (simp add: tracked_def)
next
  case (Cons ev evs)
  show ?case
  proof (cases ev)
    case (ResizeEvent e')
    from Cons.IH [OF tracked_resize(1) [OF Cons.prems, of e']] tracked_resize(2) [OF Cons.prems, of e']
    show ?thesis unfolding ResizeEvent by (simp del: deliver.simps)
  next
    case (FrameEvent t)
    from Cons.IH [OF tracked_frame(1) [OF Cons.prems, of t]] tracked_frame(2) [OF Cons.prems, of t]
    show ?thesis unfolding FrameEvent by (simp del: deliver.simps)
  qed
qed

lemma tracked_startup:
  assumes c: "doc_canvas doc = Some c" and x: "doc_context doc = Some x"
  shows "tracked v (devicePixelRatio env) env False (startup v doc env)"
    and "line_ends (trace (startup v doc env)) = (if v = Animated then [] else [size_of v env])"
proof -
  have "v \<noteq> Basic \<longrightarrow> state_canvas_width (startup v doc env) = uint (innerWidth env) \<and>
      state_canvas_height (startup v doc env) = uint (innerHeight env)"
    and "v = Animated \<longrightarrow> frame_requests (startup v doc env) \<noteq> [Loop]"
    by (cases v; simp add: startup_animated_some [OF c x]
        startup_static_some [OF c x] blank_page_def)+
  with ready_startup [OF c x, of v env]
  show "tracked v (devicePixelRatio env) env False (startup v doc env)"
    unfolding tracked_def by simp
  show "line_ends (trace (startup v doc env)) = (if v = Animated then [] else [size_of v env])"
    by (cases v)
      (simp_all add: startup_basic_some [OF c x] startup_animated_some [OF c x]
        startup_static_some [OF c x] blank_page_def)
qed

lemma trace_two_resizes:
  assumes c: "doc_canvas doc = Some c" and x: "doc_context doc = Some x"
  shows "trace (execution v doc env (evs @ [ResizeEvent e1, ResizeEvent e2])) =
    trace (execution v doc env evs) @
      resize_pass v (devicePixelRatio env) e1 @ resize_pass v (devicePixelRatio env) e2"
proof -
  let ?p = "execution v doc env evs"
  have r: "ready v (devicePixelRatio env) ?p" by (rule ready_execution [OF c x])
  have r1: "ready v (devicePixelRatio env) (deliver (ResizeEvent e1) ?p)"
    by (rule ready_deliver [OF r])
  have "execution v doc env (evs @ [ResizeEvent e1, ResizeEvent e2]) =
      deliver (ResizeEvent e2) (deliver (ResizeEvent e1) ?p)"
    by (simp add: execution_def)
  then show ?thesis
    by (simp only: deliver_resize(1) [OF r1] deliver_resize(1) [OF r] append_assoc)
qed

lemma latest_append_resize: "latest env (evs @ [ResizeEvent e]) = e"
  by (induction env evs rule: latest.induct) simp_all

lemma canvas_document_simps:
  "doc_canvas canvas_document = Some default_canvas"
  "doc_context canvas_document = Some default_context"
  by (simp_all add: canvas_document_def)

lemma unsigned_real_nonneg: "(0::real) \<le> unsigned (w :: 'a::len word)"
proof -
  have "(0::real) \<le> of_int (uint w)" by (simp only: of_int_0_le_iff uint_ge_0)
  then show ?thesis by simp
qed



lemma run_append:
  "run (ss @ ts) p = (case run ss p of Inl e \<Rightarrow> Inl e | Inr q \<Rightarrow> run ts q)"
  by (induction ss arbitrary: p) (simp_all split: sum.splits)

lemma run_call: "run (run ss # ts) = run (ss @ ts)"
  by (rule ext) (simp add: run_append)

lemma run_singleton_call: "run [run ss, run ts] = run (ss @ ts)"
proof (rule ext)
  fix p show "run [run ss, run ts] p = run (ss @ ts) p"
    by (simp add: run_append split: sum.splits)
qed

lemma listener_statements_run: "run (listener_statements l env) = listener_fn l env"
  by (cases l)
    (simp_all add: resizeDraw_basic_def resize_def resizeDraw_static_def draw_static_def
      run_singleton_call)

lemma callback_statements_run: "run (callback_statements cb time p) p = callback_fn cb time p"
proof (cases cb)
  case Priming
  then show ?thesis by (simp add: priming_def)
next
  case Loop
  have "run ([a, b] @ ss @ [c]) q = run [a, b, run ss, c] q" for a b c ss q
    by (simp add: run_append split: sum.splits)
  with Loop show ?thesis by (simp add: loop_def Let_def draw_animated_def del: append.simps)
qed

lemma script_statements_run: "run (script_statements v doc env) = script v doc env"
proof (rule ext)
  fix p
  have 1: "run ([a, b, c] @ ss) q = run [a, b, c, run ss] q" for a b c ss q
    by (simp add: run_append split: sum.splits)
  have 2: "run ([a, b, c, d, e] @ ss @ [f, g, h]) q = run [a, b, c, d, e, run ss, f, g, h] q"
    for a b c d e f g h ss q
    by (simp add: run_append split: sum.splits)
  have 3: "run ([a, b, c, d, e] @ ss @ ts) q = run [a, b, c, d, e, run [run ss, run ts]] q"
    for a b c d e ss ts q
    by (simp add: run_append split: sum.splits)
  show "run (script_statements v doc env) p = script v doc env p"
  proof (cases v)
    case Basic
    then show ?thesis
      by (simp only: script_statements.simps script.simps script_basic_def resizeDraw_basic_def 1)
  next
    case Animated
    then show ?thesis
      by (simp only: script_statements.simps script.simps script_animated_def resize_def 2)
  next
    case Static
    then show ?thesis
      by (simp only: script_statements.simps script.simps script_static_def resize_def
          resizeDraw_static_def draw_static_def 3)
  qed
qed

lemma run_points_keeps:
  assumes "list_all (keeps P E) ss" and "P p"
  shows "list_all P (run_points ss p)"
  using assms
proof (induction ss arbitrary: p)
  case Nil
  show ?case by simp
next
  case (Cons s ss)
  then have s: "keeps P E s" and ss: "list_all (keeps P E) ss" by simp_all
  from keeps_weaken [OF s Cons.prems(2)]
  show ?case
  proof (cases "s p")
    case (Inl a)
    obtain e q where a: "a = (e, q)" by (cases a)
    from keeps_weaken [OF s Cons.prems(2)] Inl a have "P q" by simp
    with Inl a show ?thesis by simp
  next
    case (Inr q)
    from keeps_weaken [OF s Cons.prems(2)] Inr have "P q" by simp
    with Cons.IH [OF ss this] Inr show ?thesis by simp
  qed
qed

lemma task_points_keeps:
  assumes "list_all (keeps P E) ss" and "P p"
    and "\<And>p e. P p \<Longrightarrow> E e \<Longrightarrow> P (p\<lparr>uncaught := uncaught p @ [e]\<rparr>)"
  shows "list_all P (task_points ss p)" and "P (task (run ss) p)"
proof -
  show "P (task (run ss) p)"
    by (rule keeps_task [OF keeps_run [OF assms(1)] assms(2)]) (rule assms(3))
  with run_points_keeps [OF assms(1,2)] show "list_all P (task_points ss p)"
    by (simp add: task_points_def)
qed

lemma statements_keep_nonneg_state:
  "list_all (keeps nonneg_state any_error) (listener_statements l env)"
  "list_all (keeps nonneg_state any_error) (callback_statements cb time p)"
  "list_all (keeps nonneg_state any_error) (script_statements v doc env)"
proof -
  show "list_all (keeps nonneg_state any_error) (listener_statements l env)"
    by (cases l)
      (simp_all add: keeps_def host_defs nonneg_state_def any_error_def split: option.splits)
  show "list_all (keeps nonneg_state any_error) (callback_statements cb time p)"
    by (cases cb)
      (simp_all add: keeps_def host_defs nonneg_state_def any_error_def update_def
        requestAnimationFrame_loop_def split: option.splits)
  show "list_all (keeps nonneg_state any_error) (script_statements v doc env)"
    by (cases v)
      (simp_all add: keeps_def host_defs nonneg_state_def any_error_def
        querySelector_canvas_def getContext_2d_def split: option.splits)
qed

lemma nonneg_state_uncaught:
  "nonneg_state p \<Longrightarrow> nonneg_state (p\<lparr>uncaught := uncaught p @ [e]\<rparr>)"
  by (simp add: nonneg_state_def)

lemma listeners_points_nonneg:
  assumes "nonneg_state p"
  shows "list_all nonneg_state (listeners_points ls env p)"
  using assms
proof (induction ls arbitrary: p)
  case Nil
  show ?case by simp
next
  case (Cons l ls)
  note t = task_points_keeps [OF statements_keep_nonneg_state(1) Cons.prems nonneg_state_uncaught]
  from t(1) [of l env] Cons.IH [OF t(2) [of l env]] show ?case by simp
qed

lemma callbacks_points_nonneg:
  assumes "nonneg_state p"
  shows "list_all nonneg_state (callbacks_points cbs time p)"
  using assms
proof (induction cbs arbitrary: p)
  case Nil
  show ?case by simp
next
  case (Cons cb cbs)
  note t = task_points_keeps [OF statements_keep_nonneg_state(2) Cons.prems nonneg_state_uncaught]
  from t(1) [of cb time p] Cons.IH [OF t(2) [of cb time p]] show ?case by simp
qed

lemma listeners_points_last:
  "\<exists>ys. p # listeners_points ls env p = ys @ [fold (\<lambda>l. task (listener_fn l env)) ls p]"
proof (induction ls arbitrary: p)
  case Nil
  show ?case by simp
next
  case (Cons l ls)
  let ?q = "task (run (listener_statements l env)) p"
  from Cons [of ?q] obtain ys where "?q # listeners_points ls env ?q =
      ys @ [fold (\<lambda>l. task (listener_fn l env)) ls ?q]" by blast
  then have "p # listeners_points (l # ls) env p =
      (p # run_points (listener_statements l env) p @ ys) @
        [fold (\<lambda>l. task (listener_fn l env)) (l # ls) p]"
    by (simp add: task_points_def listener_statements_run)
  then show ?case by blast
qed

lemma callbacks_points_last:
  "\<exists>ys. p # callbacks_points cbs time p = ys @ [fold (\<lambda>cb. task (callback_fn cb time)) cbs p]"
proof (induction cbs arbitrary: p)
  case Nil
  show ?case by simp
next
  case (Cons cb cbs)
  let ?q = "task (run (callback_statements cb time p)) p"
  have q: "?q = task (callback_fn cb time) p"
    by (simp add: task_def callback_statements_run)
  from Cons [of ?q] obtain ys where "?q # callbacks_points cbs time ?q =
      ys @ [fold (\<lambda>cb. task (callback_fn cb time)) cbs ?q]" by blast
  then have "p # callbacks_points (cb # cbs) time p =
      (p # run_points (callback_statements cb time p) p @ ys) @
        [fold (\<lambda>cb. task (callback_fn cb time)) (cb # cbs) p]"
    by (simp add: task_points_def q)
  then show ?case by blast
qed

lemma deliver_points_last: "\<exists>ys. p # deliver_points ev p = ys @ [deliver ev p]"
proof (cases ev)
  case (ResizeEvent env)
  with listeners_points_last [of p "listeners p" env] show ?thesis by simp
next
  case (FrameEvent time)
  from callbacks_points_last [of "p\<lparr>frame_requests := []\<rparr>" "frame_requests p" time]
  obtain ys where "p\<lparr>frame_requests := []\<rparr> # callbacks_points (frame_requests p) time (p\<lparr>frame_requests := []\<rparr>)
      = ys @ [fold (\<lambda>cb. task (callback_fn cb time)) (frame_requests p) (p\<lparr>frame_requests := []\<rparr>)]"
    by blast
  with FrameEvent have "p # deliver_points ev p = (p # ys) @ [deliver ev p]" by simp
  then show ?thesis by blast
qed

lemma deliver_points_nonneg:
  assumes "nonneg_state p"
  shows "list_all nonneg_state (deliver_points ev p)"
proof (cases ev)
  case (ResizeEvent env)
  with listeners_points_nonneg [OF assms] show ?thesis by simp
next
  case (FrameEvent time)
  from assms have "nonneg_state (p\<lparr>frame_requests := []\<rparr>)" by (simp add: nonneg_state_def)
  with callbacks_points_nonneg [OF this] FrameEvent show ?thesis by simp
qed

lemma deliver_nonneg:
  assumes "nonneg_state p"
  shows "nonneg_state (deliver ev p)"
proof -
  from deliver_points_last [of p ev] obtain ys where ys: "p # deliver_points ev p = ys @ [deliver ev p]"
    by blast
  from assms deliver_points_nonneg [OF assms, of ev] have "list_all nonneg_state (p # deliver_points ev p)"
    by simp
  then show ?thesis unfolding ys by simp
qed

lemma events_points_nonneg:
  assumes "nonneg_state p"
  shows "list_all nonneg_state (events_points evs p)"
  using assms
proof (induction evs arbitrary: p)
  case Nil
  show ?case by simp
next
  case (Cons ev evs)
  from deliver_points_nonneg [OF Cons.prems] Cons.IH [OF deliver_nonneg [OF Cons.prems]]
  show ?case by simp
qed

lemma events_points_last: "\<exists>ys. p # events_points evs p = ys @ [fold deliver evs p]"
proof (induction evs arbitrary: p)
  case Nil
  show ?case by simp
next
  case (Cons ev evs)
  from deliver_points_last [of p ev] obtain ys where ys: "p # deliver_points ev p = ys @ [deliver ev p]"
    by blast
  from Cons [of "deliver ev p"] obtain zs where
    zs: "deliver ev p # events_points evs (deliver ev p) = zs @ [fold deliver evs (deliver ev p)]"
    by blast
  have "p # events_points (ev # evs) p = (p # deliver_points ev p) @ events_points evs (deliver ev p)"
    by simp
  also have "\<dots> = ys @ (deliver ev p # events_points evs (deliver ev p))"
    unfolding ys by simp
  also have "\<dots> = (ys @ zs) @ [fold deliver (ev # evs) p]"
    unfolding zs by simp
  finally show ?case by blast
qed

lemma nonneg_state_blank_page: "nonneg_state blank_page"
  by (simp add: nonneg_state_def blank_page_def)

lemma startup_statements: "startup v doc env = task (run (script_statements v doc env)) blank_page"
  by (simp add: startup_def script_statements_run)

lemma execution_points_nonneg: "list_all nonneg_state (execution_points v doc env evs)"
proof -
  note t = task_points_keeps [OF statements_keep_nonneg_state(3) nonneg_state_blank_page
      nonneg_state_uncaught]
  from t(2) [of v doc env] have "nonneg_state (startup v doc env)"
    by (simp add: startup_statements)
  from events_points_nonneg [OF this] t(1) [of v doc env] show ?thesis
    by (simp add: execution_points_def nonneg_state_blank_page)
qed

lemma execution_points_last: "last (execution_points v doc env evs) = execution v doc env evs"
proof -
  from events_points_last [of "startup v doc env" evs] obtain ys where
    ys: "startup v doc env # events_points evs (startup v doc env) = ys @ [execution v doc env evs]"
    by (auto simp: execution_def)
  have "execution_points v doc env evs =
    (blank_page # run_points (script_statements v doc env) blank_page) @
      (startup v doc env # events_points evs (startup v doc env))"
    by (simp add: execution_points_def task_points_def startup_statements)
  then show ?thesis unfolding ys by simp
qed

lemma nonneg_state_execution: "nonneg_state (execution v doc env evs)"
proof -
  have "execution_points v doc env evs \<noteq> []" by (simp add: execution_points_def)
  with execution_points_nonneg [of v doc env evs] execution_points_last [of v doc env evs]
  show ?thesis by (metis last_in_set list_all_iff)
qed



lemma animated_sized_deliver:
  assumes "animated_sized r e p"
  shows "animated_sized r (latest e [ev]) (deliver ev p)"
proof -
  from assms have r: "ready Animated r p" by (simp add: animated_sized_def)
  from assms obtain c x where c: "canvas p = Some c" and x: "ctx p = Some x"
    by (auto simp: animated_sized_def)
  note rd = ready_deliver [OF r, of ev]
  show ?thesis
  proof (cases ev)
    case (ResizeEvent e')
    from assms rd show ?thesis unfolding ResizeEvent
      by (simp add: animated_sized_def ready_def task_def resize_some [OF c x])
  next
    case (FrameEvent t)
    from r consider "frame_requests p = [Priming]" | "frame_requests p = [Loop]"
      by (auto simp: ready_def)
    then show ?thesis
    proof cases
      case 1
      from assms rd show ?thesis unfolding FrameEvent deliver_priming [OF r 1]
        by (simp add: animated_sized_def)
    next
      case 2
      from assms rd c x show ?thesis unfolding FrameEvent deliver_loop [OF r 2 x]
        by (simp add: animated_sized_def)
    qed
  qed
qed

lemma latest_Cons: "latest e (ev # evs) = latest (latest e [ev]) evs"
  by (cases ev) simp_all

lemma animated_sized_fold:
  assumes "animated_sized r e p"
  shows "animated_sized r (latest e evs) (fold deliver evs p)"
  using assms
proof (induction evs arbitrary: e p)
  case Nil
  then show ?case by simp
next
  case (Cons ev evs)
  from Cons.IH [OF animated_sized_deliver [OF Cons.prems, of ev]]
  show ?case by (simp add: latest_Cons [of e ev evs] del: deliver.simps latest.simps)
qed

lemma animated_sized_execution:
  assumes c: "doc_canvas doc = Some c" and x: "doc_context doc = Some x"
  shows "animated_sized (devicePixelRatio env) (latest env evs) (execution Animated doc env evs)"
proof -
  have "ready Animated (devicePixelRatio env) (startup Animated doc env)"
    by (rule ready_startup [OF c x])
  then have "animated_sized (devicePixelRatio env) env (startup Animated doc env)"
    by (simp add: animated_sized_def startup_animated_some [OF c x] blank_page_def)
  then show ?thesis unfolding execution_def by (rule animated_sized_fold)
qed

lemma animated_clear_covers_canvas:
  assumes c: "doc_canvas doc = Some c0" and x: "doc_context doc = Some x0"
    and r: "0 \<le> devicePixelRatio env"
    and w: "of_int (uint (innerWidth (latest env evs))) * devicePixelRatio env < 2 ^ 31"
    and h: "of_int (uint (innerHeight (latest env evs))) * devicePixelRatio env < 2 ^ 31"
  shows "\<exists>c x. canvas (execution Animated doc env evs) = Some c
    \<and> ctx (execution Animated doc env evs) = Some x
    \<and> clear_region (transform x) (of_int (state_canvas_width (execution Animated doc env evs)))
         (of_int (state_canvas_height (execution Animated doc env evs))) =
       [(0, 0),
        (of_int (uint (innerWidth (latest env evs))) * devicePixelRatio env, 0),
        (of_int (uint (innerWidth (latest env evs))) * devicePixelRatio env,
         of_int (uint (innerHeight (latest env evs))) * devicePixelRatio env),
        (0, of_int (uint (innerHeight (latest env evs))) * devicePixelRatio env)]
    \<and> of_int (width c) \<le> of_int (uint (innerWidth (latest env evs))) * devicePixelRatio env
    \<and> of_int (height c) \<le> of_int (uint (innerHeight (latest env evs))) * devicePixelRatio env"
proof -
  let ?W = "real_of_int (uint (innerWidth (latest env evs))) * devicePixelRatio env"
  let ?H = "real_of_int (uint (innerHeight (latest env evs))) * devicePixelRatio env"
  from r have "0 \<le> ?W" and "0 \<le> ?H" by (simp_all add: unsigned_real_nonneg)
  then have "canvas_dimension 300 ?W = \<lfloor>?W\<rfloor>" and "canvas_dimension 150 ?H = \<lfloor>?H\<rfloor>"
    using w h by (simp_all add: canvas_dimension_floor)
  moreover have "of_int \<lfloor>?W\<rfloor> \<le> ?W" and "of_int \<lfloor>?H\<rfloor> \<le> ?H" by simp_all
  ultimately show ?thesis
    using animated_sized_execution [OF c x, of env evs]
    by (auto simp: animated_sized_def clear_region_def uniform_scale_def mult.commute)
qed

section \<open>The claims\<close>

subsection \<open>C1: what the Surface Sizer sets\<close>




subsection \<open>C2: the Frame Driver's dt\<close>

text \<open>
  Claim C2. In the animated script, in a document with a canvas and a context:
  \<^item> the first animation callback only stores its time stamp in \<open>prevTime\<close> and requests
    \<open>loop\<close>: the page is otherwise unchanged, so there is no update and no draw;
  \<^item> the \<open>dt\<close> values passed to \<open>update\<close>, in order, are the differences of consecutive
    frame time stamps, whatever resize notifications come in between;
  \<^item> hence every \<open>dt\<close> is at least 0 when the time stamps do not decrease.
  For frames at 16, 33, 50 the values passed are 17 and 17 (the witness).
\<close>

theorem frame_driver_dt:
  assumes "doc_canvas doc = Some c" and "doc_context doc = Some x"
  shows "(frame_times evs = [] \<longrightarrow>
        execution Animated doc env (evs @ [FrameEvent t]) =
          (execution Animated doc env evs)\<lparr>prevTime := t, frame_requests := [Loop],
             trace := trace (execution Animated doc env evs) @ [RequestAnimationFrame Loop]\<rparr>)
    \<and> updates (trace (execution Animated doc env evs)) = dts (frame_times evs)
    \<and> (sorted (frame_times evs) \<longrightarrow>
          (\<forall>dt \<in> set (updates (trace (execution Animated doc env evs))). 0 \<le> dt))"
proof -
  let ?p = "execution Animated doc env evs"
  have r: "ready Animated (devicePixelRatio env) ?p" by (rule ready_execution [OF assms])
  have f: "frame_state (frame_times evs) ?p" by (rule frame_state_execution [OF assms])
  have "execution Animated doc env (evs @ [FrameEvent t]) =
      ?p\<lparr>prevTime := t, frame_requests := [Loop], trace := trace ?p @ [RequestAnimationFrame Loop]\<rparr>"
    if "frame_times evs = []"
  proof -
    from f that have "frame_requests ?p = [Priming]" by (simp add: frame_state_def)
    from deliver_priming [OF r this] show ?thesis by (simp only: execution_snoc)
  qed
  moreover from f have u: "updates (trace ?p) = dts (frame_times evs)"
    by (simp add: frame_state_def)
  moreover have "\<forall>dt \<in> set (updates (trace ?p)). 0 \<le> dt" if "sorted (frame_times evs)"
    using that dts_nonneg unfolding u by blast
  ultimately show ?thesis by blast
qed

theorem frame_driver_dt_witness:
  "updates (trace (execution Animated canvas_document (viewport 800 600 2)
      [FrameEvent 16, FrameEvent 33, FrameEvent 50])) = [17, 17]
   \<and> updates (trace (execution Animated canvas_document (viewport 800 600 2) [FrameEvent 16])) = []"
proof -
  have d: "doc_canvas canvas_document = Some default_canvas"
      "doc_context canvas_document = Some default_context"
    by (simp_all add: canvas_document_def)
  from frame_driver_dt [OF d, of "[FrameEvent 16, FrameEvent 33, FrameEvent 50]"]
    frame_driver_dt [OF d, of "[FrameEvent 16]"]
  show ?thesis by simp
qed

subsection \<open>C3: the endpoints of the drawn line\<close>

text \<open>
  Claim C3. Every invocation of the Line Drawer, on a page with a canvas and a context in
  any state, strokes one line whose endpoints in logical coordinates (the arguments of
  \<open>moveTo\<close> and \<open>lineTo\<close>) are \<open>(0, 0)\<close> and ViewportState's \<open>(width, height)\<close>. What
  reaches the bitmap is the image of that segment under the context's current transform,
  whatever that transform is, so the logical endpoints do not depend on the density
  ratio. The Line Drawer leaves ViewportState as it is. In the basic script, whose Line
  Drawer is the second half of \<open>resizeDraw\<close>, the size the line is drawn to is the
  canvas's own \<open>width\<close> and \<open>height\<close>, just set to the viewport.
\<close>

theorem line_endpoints:
  assumes "canvas p = Some c" and "ctx p = Some x"
  shows "(\<exists>q. draw_static p = Inr q
        \<and> logical_line (trace q) =
            Some ((0, 0), (of_int (state_canvas_width p), of_int (state_canvas_height p)))
        \<and> last_paint q = Some (Stroked (line_path (transform x)
            (of_int (state_canvas_width p)) (of_int (state_canvas_height p))))
        \<and> state_canvas_width q = state_canvas_width p
        \<and> state_canvas_height q = state_canvas_height p)
    \<and> (\<exists>q. draw_animated p = Inr q
        \<and> logical_line (trace q) =
            Some ((0, 0), (of_int (state_canvas_width p), of_int (state_canvas_height p)))
        \<and> last_paint q = Some (Stroked (line_path (transform x)
            (of_int (state_canvas_width p)) (of_int (state_canvas_height p))))
        \<and> state_canvas_width q = state_canvas_width p
        \<and> state_canvas_height q = state_canvas_height p)
    \<and> (\<exists>q c'. resizeDraw_basic env p = Inr q \<and> canvas q = Some c'
        \<and> width c' = uint (clientWidth env) \<and> height c' = uint (clientHeight env)
        \<and> logical_line (trace q) = Some ((0, 0), (of_int (width c'), of_int (height c')))
        \<and> last_paint q =
            Some (Stroked (line_path identity (of_int (width c')) (of_int (height c')))))"
  by (simp add: draw_static_some [OF assms(2)] draw_animated_some [OF assms(2)]
      resizeDraw_basic_some [OF assms] logical_line_def last_paint_def)

theorem line_endpoints_witness:
  "\<exists>q. draw_static (blank_page\<lparr>canvas := Some default_canvas,
        ctx := Some (default_context\<lparr>transform := uniform_scale 2\<rparr>),
        state_canvas_width := 800, state_canvas_height := 600\<rparr>) = Inr q
     \<and> logical_line (trace q) = Some ((0, 0), (800, 600))
     \<and> last_paint q = Some (Stroked [[(0, 0), (1600, 1200)]])"
proof -
  have "canvas (blank_page\<lparr>canvas := Some default_canvas,
        ctx := Some (default_context\<lparr>transform := uniform_scale 2\<rparr>),
        state_canvas_width := 800, state_canvas_height := 600\<rparr>) = Some default_canvas"
    and "ctx (blank_page\<lparr>canvas := Some default_canvas,
        ctx := Some (default_context\<lparr>transform := uniform_scale 2\<rparr>),
        state_canvas_width := 800, state_canvas_height := 600\<rparr>)
      = Some (default_context\<lparr>transform := uniform_scale 2\<rparr>)"
    by simp_all
  from line_endpoints [OF this, of "viewport 800 600 2", THEN conjunct1]
  show ?thesis
    by (auto simp: line_path_def uniform_scale_def)
qed

subsection \<open>C4: ViewportState follows the latest Sizer run\<close>

text \<open>
  Claim C4, as amended. ViewportState's width and height are not negative at every point
  of execution: after every statement of the startup script, of every listener and of
  every animation-frame callback, in every document and for every sequence of events
  (\<open>execution_points\<close>, whose last point is the page the execution ends with). In a
  document with a canvas and a context, moreover:
  \<^item> in the animated and the static script ViewportState is the viewport size delivered
    by the most recent resize notification, and the size read at startup while there
    has been none;
  \<^item> whenever a draw runs it draws to that size (\<open>draws\<close> lists the sizes, one for each run
    of the Drawer);
  \<^item> two resize notifications in a row, with viewports \<open>e1\<close> then \<open>e2\<close>, leave ViewportState
    at \<open>e2\<close> and are handled one after the other, none skipped or merged: in the basic
    and the static script each is a full Sizer and Drawer pass; in the animated script
    each is a Sizer pass with no Drawer pass, since its resize listener does not draw.
\<close>

theorem viewport_state_invariant:
  "list_all nonneg_state (execution_points v doc env evs)
    \<and> last (execution_points v doc env evs) = execution v doc env evs
    \<and> (doc_canvas doc \<noteq> None \<and> doc_context doc \<noteq> None \<longrightarrow>
         (v \<noteq> Basic \<longrightarrow>
            state_canvas_width (execution v doc env evs) = uint (innerWidth (latest env evs)) \<and>
            state_canvas_height (execution v doc env evs) = uint (innerHeight (latest env evs)))
       \<and> line_ends (trace (execution v doc env evs)) = draws v env evs
       \<and> (v \<noteq> Basic \<longrightarrow>
            state_canvas_width (execution v doc env (evs @ [ResizeEvent e1, ResizeEvent e2])) = uint (innerWidth e2) \<and>
            state_canvas_height (execution v doc env (evs @ [ResizeEvent e1, ResizeEvent e2])) = uint (innerHeight e2))
       \<and> trace (execution v doc env (evs @ [ResizeEvent e1, ResizeEvent e2])) =
           trace (execution v doc env evs) @
             resize_pass v (devicePixelRatio env) e1 @ resize_pass v (devicePixelRatio env) e2)"
proof -
  have rest: "(v \<noteq> Basic \<longrightarrow>
            state_canvas_width (execution v doc env evs) = uint (innerWidth (latest env evs)) \<and>
            state_canvas_height (execution v doc env evs) = uint (innerHeight (latest env evs)))
       \<and> line_ends (trace (execution v doc env evs)) = draws v env evs
       \<and> (v \<noteq> Basic \<longrightarrow>
            state_canvas_width (execution v doc env (evs @ [ResizeEvent e1, ResizeEvent e2])) = uint (innerWidth e2) \<and>
            state_canvas_height (execution v doc env (evs @ [ResizeEvent e1, ResizeEvent e2])) = uint (innerHeight e2))
       \<and> trace (execution v doc env (evs @ [ResizeEvent e1, ResizeEvent e2])) =
           trace (execution v doc env evs) @
             resize_pass v (devicePixelRatio env) e1 @ resize_pass v (devicePixelRatio env) e2"
    if c: "doc_canvas doc = Some c" and x: "doc_context doc = Some x" for c x
  proof -
    note t = tracked_startup [OF c x, of v env]
    have l: "latest env (evs @ [ResizeEvent e1, ResizeEvent e2]) = e2"
      using latest_append_resize [of env "evs @ [ResizeEvent e1]" e2] by simp
    from tracked_fold [OF t(1), of evs]
      tracked_fold [OF t(1), of "evs @ [ResizeEvent e1, ResizeEvent e2]"]
      trace_two_resizes [OF c x, of v env evs e1 e2]
    show ?thesis
      unfolding execution_def [symmetric] l
      by (simp add: t(2) draws_def)
  qed
  from execution_points_nonneg [of v doc env evs] execution_points_last [of v doc env evs] rest
  show ?thesis by auto
qed

text \<open>The scenario of the specification, 800 x 600 then 1024 x 768, in the static script.\<close>

theorem viewport_state_invariant_witness:
  "list_all nonneg_state (execution_points Static canvas_document (viewport 640 480 2) [])
   \<and> state_canvas_width (execution Static canvas_document (viewport 640 480 2)
        ([] @ [ResizeEvent (viewport 800 600 2), ResizeEvent (viewport 1024 768 2)])) = 1024
   \<and> state_canvas_height (execution Static canvas_document (viewport 640 480 2)
        ([] @ [ResizeEvent (viewport 800 600 2), ResizeEvent (viewport 1024 768 2)])) = 768
   \<and> trace (execution Static canvas_document (viewport 640 480 2)
        ([] @ [ResizeEvent (viewport 800 600 2), ResizeEvent (viewport 1024 768 2)])) =
      trace (execution Static canvas_document (viewport 640 480 2) []) @
        resize_pass Static 2 (viewport 800 600 2) @ resize_pass Static 2 (viewport 1024 768 2)
   \<and> line_ends (trace (execution Static canvas_document (viewport 640 480 2) [])) = [(640, 480)]"
  using viewport_state_invariant [where v = Static and doc = canvas_document
      and env = "viewport 640 480 2" and evs = "[]"
      and ?e1.0 = "viewport 800 600 2" and ?e2.0 = "viewport 1024 768 2"]
  by (simp add: canvas_document_simps draws_def) (simp add: viewport_def)

text \<open>
  C4 as stated fails for the animated script: after startup and the two resize
  notifications nothing at all has been stroked, so no Drawer pass has occurred; the
  animation frame that follows is the priming one and strokes nothing either. And a draw
  runs before any resize notification has been delivered: the static script draws at
  startup, to the size read then.
\<close>

theorem animated_resize_counterexample:
  "Stroke \<notin> set (trace (execution Animated canvas_document (viewport 640 480 2)
      [ResizeEvent (viewport 800 600 2), ResizeEvent (viewport 1024 768 2)]))
   \<and> Stroke \<notin> set (trace (execution Animated canvas_document (viewport 640 480 2)
      ([ResizeEvent (viewport 800 600 2), ResizeEvent (viewport 1024 768 2)] @ [FrameEvent 16])))
   \<and> line_ends (trace (execution Static canvas_document (viewport 640 480 2) [])) = [(640, 480)]"
proof -
  let ?evs = "[ResizeEvent (viewport 800 600 2), ResizeEvent (viewport 1024 768 2)]"
  let ?p = "execution Animated canvas_document (viewport 640 480 2) ?evs"
  have "trace (execution Animated canvas_document (viewport 640 480 2)
      ([] @ [ResizeEvent (viewport 800 600 2), ResizeEvent (viewport 1024 768 2)])) =
    trace (execution Animated canvas_document (viewport 640 480 2) []) @
      resize_pass Animated (devicePixelRatio (viewport 640 480 2)) (viewport 800 600 2) @
      resize_pass Animated (devicePixelRatio (viewport 640 480 2)) (viewport 1024 768 2)"
    by (rule trace_two_resizes [OF canvas_document_simps])
  then have two: "Stroke \<notin> set (trace ?p)"
    by (simp add: execution_def startup_animated_some [OF canvas_document_simps] blank_page_def)
  have r: "ready Animated (devicePixelRatio (viewport 640 480 2)) ?p"
    by (rule ready_execution [OF canvas_document_simps])
  have "frame_state (frame_times ?evs) ?p"
    by (rule frame_state_execution [OF canvas_document_simps])
  then have "frame_requests ?p = [Priming]" by (simp add: frame_state_def)
  from deliver_priming [OF r this, of 16] two
  have three: "Stroke \<notin> set (trace (execution Animated canvas_document (viewport 640 480 2)
      (?evs @ [FrameEvent 16])))"
    by (simp only: execution_snoc) simp
  have "line_ends (trace (execution Static canvas_document (viewport 640 480 2) [])) = [(640, 480)]"
    by (simp add: execution_def startup_static_some [OF canvas_document_simps] blank_page_def
        viewport_def)
  with two three show ?thesis by simp
qed

subsection \<open>C5: the Line Drawer invoked twice\<close>




subsection \<open>C6: startup without a canvas or without a context\<close>

text \<open>
  Claim C6. If the document has no canvas element, or no 2D context can be obtained, then
  in each of the three scripts the startup script throws a TypeError that nothing in the
  script catches: it is the one uncaught fault of startup. Nothing repairs it afterwards:
  after any sequence of later events the script still has no context, nothing has been
  stroked, and no animation frame is requested.
\<close>

theorem startup_faults_without_canvas_or_context:
  assumes "doc_canvas doc = None \<or> doc_context doc = None"
  shows "(\<exists>p. script v doc env blank_page = Inl (TypeError, p))
    \<and> uncaught (startup v doc env) = [TypeError]
    \<and> (\<forall>evs. never_draws (execution v doc env evs))"
proof -
  from script_faults [OF assms, of v env]
  have "\<exists>p. script v doc env blank_page = Inl (TypeError, p)" by blast
  moreover have "never_draws (execution v doc env evs)" for evs
    unfolding execution_def
    by (rule fold_invariant [where P = never_draws])
      (simp_all add: never_draws_deliver never_draws_startup [OF assms])
  ultimately show ?thesis by (simp add: never_draws_startup [OF assms])
qed

theorem startup_faults_witness:
  "script Animated \<lparr>doc_canvas = None, doc_context = None\<rparr> (viewport 800 600 2) blank_page
     = Inl (TypeError, blank_page)
   \<and> uncaught (startup Static \<lparr>doc_canvas = Some default_canvas, doc_context = None\<rparr>
        (viewport 800 600 2)) = [TypeError]
   \<and> never_draws (execution Basic \<lparr>doc_canvas = Some default_canvas, doc_context = None\<rparr>
        (viewport 800 600 2) [ResizeEvent (viewport 1024 768 2), FrameEvent 16])"
proof -
  have "script Animated \<lparr>doc_canvas = None, doc_context = None\<rparr> (viewport 800 600 2) blank_page
     = Inl (TypeError, blank_page)"
    by (rule script_no_canvas) simp
  then show ?thesis
    using startup_faults_without_canvas_or_context
      [where doc = "\<lparr>doc_canvas = Some default_canvas, doc_context = None\<rparr>"
        and env = "viewport 800 600 2"]
    by simp
qed

subsection \<open>C7: the density ratio is read once\<close>

text \<open>
  Claim C7. Take two runs of the same script in the same document with the same startup
  values, whose events agree on every viewport size and time stamp but may differ in the
  density ratio the window reports at each resize. After every number of events the two
  pages are equal: backing store, displayed size, transform, ViewportState and all the
  rest. The scripts read \<open>devicePixelRatio\<close> at startup only.
\<close>

theorem density_ratio_read_once:
  assumes "list_all2 same_viewport evs evs'"
  shows "execution v doc env (take n evs) = execution v doc env (take n evs')"
proof -
  from assms have "list_all2 same_viewport (take n evs) (take n evs')"
    by (rule list_all2_takeI)
  then show ?thesis
    unfolding execution_def by (rule fold_deliver_same_viewport)
qed

theorem density_ratio_read_once_witness:
  "execution Animated canvas_document (viewport 1024 768 2)
      (take 2 [ResizeEvent (viewport 800 600 2), FrameEvent 16, ResizeEvent (viewport 640 480 2)])
   = execution Animated canvas_document (viewport 1024 768 2)
      (take 2 [ResizeEvent (viewport 800 600 3), FrameEvent 16, ResizeEvent (viewport 640 480 1)])"
  by (rule density_ratio_read_once) (simp add: viewport_def)

subsection \<open>C8: the update step\<close>

text \<open>
  Claim C8. For every \<open>dt\<close>, \<open>update dt\<close> returns the page it was given: ViewportState, the
  canvas, the context and every other variable are unchanged, and it never faults.
\<close>

theorem update_is_noop: "update dt p = Inr p \<and> task (update dt) p = p"
  by (simp add: update_def task_def)

subsection \<open>C9: the transform after a resize\<close>

text \<open>
  Claim C9. In the two density-aware scripts, right after a call of \<open>resize\<close> (alone, or
  inside the static script's \<open>resizeDraw\<close>) on a page with a canvas and a context, the
  context's transform is the uniform scale by \<open>pixelRatio\<close>, whatever it was before; after
  two calls in a row it is still that scale and not its square. The assignment to
  \<open>canvas.width\<close> resets the context before \<open>ctx.scale\<close> runs.
\<close>

theorem resize_transform_is_pixelRatio:
  assumes "canvas p = Some c" and "ctx p = Some x"
  shows "(\<exists>q y. resize env p = Inr q \<and> ctx q = Some y \<and> transform y = uniform_scale (pixelRatio p))
    \<and> (\<exists>q y. run [resize env, resize env'] p = Inr q \<and> ctx q = Some y \<and>
          transform y = uniform_scale (pixelRatio p))
    \<and> (\<exists>q y. resizeDraw_static env p = Inr q \<and> ctx q = Some y \<and>
          transform y = uniform_scale (pixelRatio p))
    \<and> (\<exists>q y. run [resizeDraw_static env, resizeDraw_static env'] p = Inr q \<and> ctx q = Some y \<and>
          transform y = uniform_scale (pixelRatio p))"
  by (simp add: resize_some [OF assms] resize_some resizeDraw_static_some [OF assms]
      resizeDraw_static_some)

theorem resize_transform_is_pixelRatio_witness:
  "\<exists>q y. run [resize (viewport 800 600 1), resize (viewport 1024 768 1)]
       (blank_page\<lparr>canvas := Some default_canvas, ctx := Some default_context, pixelRatio := 2\<rparr>) = Inr q \<and>
     ctx q = Some y \<and> transform y = \<lparr>ma = 2, mb = 0, mc = 0, md = 2, me = 0, mf = 0\<rparr>"
  using resize_transform_is_pixelRatio [where p = "blank_page\<lparr>canvas := Some default_canvas,
      ctx := Some default_context, pixelRatio := 2\<rparr>" and c = default_canvas and x = default_context
      and env = "viewport 800 600 1" and env' = "viewport 1024 768 1"]
  by (simp add: blank_page_def uniform_scale_def)

subsection \<open>C10: the priming callback and the binding of loop\<close>

text \<open>
  Claim C10. In the animated script, in any document and after any sequence of events, no
  ReferenceError has been thrown: whenever an animation-frame callback is pending, the
  declaration of \<open>loop\<close> has been evaluated, because callbacks run as tasks of their own
  after the startup script has ended. (Lemma \<open>priming_before_declaration\<close> shows the
  fault the callback would throw if it ran before the declaration.)
\<close>

theorem priming_never_reads_uninitialized_loop:
  "ReferenceError \<notin> set (uncaught (execution Animated doc env evs))
   \<and> (frame_requests (execution Animated doc env evs) = []
      \<or> loop_initialized (execution Animated doc env evs))"
  using never_reference_error_execution [of Animated doc env evs]
  by (auto simp: never_reference_error_def loop_declared_def no_requests_def)

end
